theory Spec2Isabelle
  imports Complex_Main "HOL-Library.Word"
begin

unbundle bit_operations_syntax

section \<open>Data model\<close>

text \<open>
  Coordinates are the source's \<open>float\<close> and \<open>double\<close> values; they are modelled as
  real numbers and their arithmetic is exact. The floating-point evaluation of the
  midpoint at which \<open>subdivide\<close> cuts, with its rounding and its overflow, is modelled
  separately in the section on the midpoint in floating-point arithmetic. Buffer indices
  (\<open>Index = uint32_t\<close>) are 32-bit words; buffer sizes (\<open>size_t\<close>) are natural numbers.
\<close>

subsection \<open>Points and axis-aligned boxes (Geometry.hpp)\<close>

text \<open>\<open>std::array<float, 3>\<close>: the components \<open>[0]\<close>, \<open>[1]\<close>, \<open>[2]\<close>.\<close>

datatype Vertex = Vertex (c0: real) (c1: real) (c2: real)

datatype BoundingBox = BoundingBox (bmin: Vertex) (bmax: Vertex)

definition bb_size :: "BoundingBox \<Rightarrow> Vertex" where
  "bb_size b = Vertex (c0 (bmax b) - c0 (bmin b)) (c1 (bmax b) - c1 (bmin b))
                      (c2 (bmax b) - c2 (bmin b))"

text \<open>
  \<open>BoundingBox::center\<close> over the reals: the exact midpoint. The same expression in
  \<open>float\<close> arithmetic is \<open>center_fl\<close> below.
\<close>

definition center :: "BoundingBox \<Rightarrow> Vertex" where
  "center b = Vertex ((c0 (bmin b) + c0 (bmax b)) * 0.5) ((c1 (bmin b) + c1 (bmax b)) * 0.5)
                     ((c2 (bmin b) + c2 (bmax b)) * 0.5)"

definition volume :: "BoundingBox \<Rightarrow> real" where
  "volume b = (let s = bb_size b in c0 s * c1 s * c2 s)"

definition bb_empty :: "BoundingBox \<Rightarrow> bool" where
  "bb_empty b \<longleftrightarrow> c0 (bmin b) \<ge> c0 (bmax b) \<or> c1 (bmin b) \<ge> c1 (bmax b)
                  \<or> c2 (bmin b) \<ge> c2 (bmax b)"

definition contains :: "BoundingBox \<Rightarrow> Vertex \<Rightarrow> bool" where
  "contains b point \<longleftrightarrow>
     c0 point \<ge> c0 (bmin b) \<and> c0 point \<le> c0 (bmax b) \<and>
     c1 point \<ge> c1 (bmin b) \<and> c1 point \<le> c1 (bmax b) \<and>
     c2 point \<ge> c2 (bmin b) \<and> c2 point \<le> c2 (bmax b)"

definition intersects :: "BoundingBox \<Rightarrow> BoundingBox \<Rightarrow> bool" where
  "intersects b other \<longleftrightarrow>
     \<not> (c0 (bmax b) < c0 (bmin other) \<or> c0 (bmin b) > c0 (bmax other) \<or>
        c1 (bmax b) < c1 (bmin other) \<or> c1 (bmin b) > c1 (bmax other) \<or>
        c2 (bmax b) < c2 (bmin other) \<or> c2 (bmin b) > c2 (bmax other))"

text \<open>\<open>BoundingBox::subdivide\<close>: the eight children in the order of the array literal.\<close>

definition subdivide :: "BoundingBox \<Rightarrow> BoundingBox list" where
  "subdivide b =
     (let c = center b; mn = bmin b; mx = bmax b in
      [BoundingBox mn c,
       BoundingBox (Vertex (c0 c) (c1 mn) (c2 mn)) (Vertex (c0 mx) (c1 c) (c2 c)),
       BoundingBox (Vertex (c0 mn) (c1 c) (c2 mn)) (Vertex (c0 c) (c1 mx) (c2 c)),
       BoundingBox (Vertex (c0 c) (c1 c) (c2 mn)) (Vertex (c0 mx) (c1 mx) (c2 c)),
       BoundingBox (Vertex (c0 mn) (c1 mn) (c2 c)) (Vertex (c0 c) (c1 c) (c2 mx)),
       BoundingBox (Vertex (c0 c) (c1 mn) (c2 c)) (Vertex (c0 mx) (c1 c) (c2 mx)),
       BoundingBox (Vertex (c0 mn) (c1 c) (c2 c)) (Vertex (c0 c) (c1 mx) (c2 mx)),
       BoundingBox c mx])"

subsection \<open>Geographic rectangles (GeoBBox.hpp)\<close>

datatype GeoBBox = GeoBBox (minLon: real) (minLat: real) (maxLon: real) (maxLat: real)

definition width :: "GeoBBox \<Rightarrow> real" where
  "width r = maxLon r - minLon r"

definition height :: "GeoBBox \<Rightarrow> real" where
  "height r = maxLat r - minLat r"

text \<open>
  \<open>centerLon\<close> and \<open>centerLat\<close> over the reals: the exact midpoints. The same expressions
  in \<open>double\<close> arithmetic are \<open>geo_center_fl\<close> below.
\<close>

definition centerLon :: "GeoBBox \<Rightarrow> real" where
  "centerLon r = (minLon r + maxLon r) * 0.5"

definition centerLat :: "GeoBBox \<Rightarrow> real" where
  "centerLat r = (minLat r + maxLat r) * 0.5"

definition geo_empty :: "GeoBBox \<Rightarrow> bool" where
  "geo_empty r \<longleftrightarrow> width r \<le> 0 \<or> height r \<le> 0"

definition geo_contains :: "GeoBBox \<Rightarrow> real \<Rightarrow> real \<Rightarrow> bool" where
  "geo_contains r lon lat \<longleftrightarrow>
     lon \<ge> minLon r \<and> lon \<le> maxLon r \<and> lat \<ge> minLat r \<and> lat \<le> maxLat r"

text \<open>\<open>GeoBBox::subdivide\<close>: SW, SE, NW, NE.\<close>

definition geo_subdivide :: "GeoBBox \<Rightarrow> GeoBBox list" where
  "geo_subdivide r =
     (let midLon = centerLon r; midLat = centerLat r in
      [GeoBBox (minLon r) (minLat r) midLon midLat,
       GeoBBox midLon (minLat r) (maxLon r) midLat,
       GeoBBox (minLon r) midLat midLon (maxLat r),
       GeoBBox midLon midLat (maxLon r) (maxLat r)])"

subsection \<open>Point sets of boxes\<close>

text \<open>
  The closed point set of a box is what \<open>contains\<close> accepts; its interior is the open
  box. Both are used only to state the partition property of \<open>subdivide\<close>.
\<close>

definition box_points :: "BoundingBox \<Rightarrow> Vertex set" where
  "box_points b = {p. contains b p}"

definition box_interior :: "BoundingBox \<Rightarrow> Vertex set" where
  "box_interior b =
     {p. c0 (bmin b) < c0 p \<and> c0 p < c0 (bmax b) \<and>
         c1 (bmin b) < c1 p \<and> c1 p < c1 (bmax b) \<and>
         c2 (bmin b) < c2 p \<and> c2 p < c2 (bmax b)}"

definition rect_points :: "GeoBBox \<Rightarrow> (real \<times> real) set" where
  "rect_points r = {(lon, lat). geo_contains r lon lat}"

definition rect_interior :: "GeoBBox \<Rightarrow> (real \<times> real) set" where
  "rect_interior r =
     {(lon, lat). minLon r < lon \<and> lon < maxLon r \<and> minLat r < lat \<and> lat < maxLat r}"

text \<open>
  The child of an AABB selected by a bit pattern: bit 0 chooses the high half in x,
  bit 1 the high half in y, bit 2 the high half in z.
\<close>

definition child_by_bits :: "BoundingBox \<Rightarrow> nat \<Rightarrow> BoundingBox" where
  "child_by_bits b i =
     (let c = center b; mn = bmin b; mx = bmax b in
      BoundingBox
        (Vertex (if bit i 0 then c0 c else c0 mn) (if bit i 1 then c1 c else c1 mn)
                (if bit i 2 then c2 c else c2 mn))
        (Vertex (if bit i 0 then c0 mx else c0 c) (if bit i 1 then c1 mx else c1 c)
                (if bit i 2 then c2 mx else c2 c)))"

section \<open>Subdivision partitions the bounds\<close>

lemma half_split:
  fixes lo hi x :: real
  shows "lo \<le> x \<and> x \<le> hi \<longleftrightarrow>
         (lo \<le> x \<and> x \<le> (lo + hi) * 0.5) \<or> ((lo + hi) * 0.5 \<le> x \<and> x \<le> hi)"
  by auto

lemma nat_less_8_cases:
  "(i::nat) < 8 \<Longrightarrow> i = 0 \<or> i = 1 \<or> i = 2 \<or> i = 3 \<or> i = 4 \<or> i = 5 \<or> i = 6 \<or> i = 7"
  by arith

lemma nat_less_4_cases:
  "(i::nat) < 4 \<Longrightarrow> i = 0 \<or> i = 1 \<or> i = 2 \<or> i = 3"
  by arith

lemma subdivide_length: "length (subdivide b) = 8"
  by (simp add: subdivide_def Let_def)

lemma geo_subdivide_length: "length (geo_subdivide r) = 4"
  by (simp add: geo_subdivide_def Let_def)

lemma subdivide_nth_bits:
  assumes "i < 8"
  shows "subdivide b ! i = child_by_bits b i"
  using nat_less_8_cases [OF assms]
  by (elim disjE) (simp_all add: subdivide_def child_by_bits_def Let_def bit_iff_odd)

definition in_range :: "real \<Rightarrow> real \<Rightarrow> real \<Rightarrow> bool" where
  "in_range lo hi x \<longleftrightarrow> lo \<le> x \<and> x \<le> hi"

lemma in_range_half:
  "in_range lo hi x \<longleftrightarrow> in_range lo ((lo + hi) * 0.5) x \<or> in_range ((lo + hi) * 0.5) hi x"
  unfolding in_range_def by (rule half_split)

lemma contains_in_range:
  "contains b p \<longleftrightarrow> in_range (c0 (bmin b)) (c0 (bmax b)) (c0 p) \<and>
     in_range (c1 (bmin b)) (c1 (bmax b)) (c1 p) \<and> in_range (c2 (bmin b)) (c2 (bmax b)) (c2 p)"
  by (auto simp: contains_def in_range_def)

lemma geo_contains_in_range:
  "geo_contains r lon lat \<longleftrightarrow>
     in_range (minLon r) (maxLon r) lon \<and> in_range (minLat r) (maxLat r) lat"
  by (auto simp: geo_contains_def in_range_def)

lemma contains_subdivide_iff:
  "(\<exists>x\<in>set (subdivide b). contains x p) \<longleftrightarrow> contains b p"
proof -
  have "(\<exists>x\<in>set (subdivide b). contains x p) \<longleftrightarrow>
     (in_range (c0 (bmin b)) ((c0 (bmin b) + c0 (bmax b)) * 0.5) (c0 p) \<or>
      in_range ((c0 (bmin b) + c0 (bmax b)) * 0.5) (c0 (bmax b)) (c0 p)) \<and>
     (in_range (c1 (bmin b)) ((c1 (bmin b) + c1 (bmax b)) * 0.5) (c1 p) \<or>
      in_range ((c1 (bmin b) + c1 (bmax b)) * 0.5) (c1 (bmax b)) (c1 p)) \<and>
     (in_range (c2 (bmin b)) ((c2 (bmin b) + c2 (bmax b)) * 0.5) (c2 p) \<or>
      in_range ((c2 (bmin b) + c2 (bmax b)) * 0.5) (c2 (bmax b)) (c2 p))"
    unfolding subdivide_def center_def Let_def contains_in_range
    by (simp only: list.set bex_simps BoundingBox.sel Vertex.sel Un_iff insert_iff
          empty_iff bex_Un) blast
  then show ?thesis
    unfolding contains_in_range [of b] in_range_half [symmetric] .
qed

lemma geo_contains_subdivide_iff:
  "(\<exists>x\<in>set (geo_subdivide r). geo_contains x lon lat) \<longleftrightarrow> geo_contains r lon lat"
proof -
  have "(\<exists>x\<in>set (geo_subdivide r). geo_contains x lon lat) \<longleftrightarrow>
     (in_range (minLon r) ((minLon r + maxLon r) * 0.5) lon \<or>
      in_range ((minLon r + maxLon r) * 0.5) (maxLon r) lon) \<and>
     (in_range (minLat r) ((minLat r + maxLat r) * 0.5) lat \<or>
      in_range ((minLat r + maxLat r) * 0.5) (maxLat r) lat)"
    unfolding geo_subdivide_def centerLon_def centerLat_def Let_def geo_contains_in_range
    by (simp only: list.set bex_simps GeoBBox.sel Un_iff insert_iff empty_iff bex_Un) blast
  then show ?thesis
    unfolding geo_contains_in_range [of r] in_range_half [symmetric] .
qed

lemma UN_nth_less:
  assumes "length xs = n"
  shows "(\<Union>i<n. f (xs ! i)) = (\<Union>x\<in>set xs. f x)"
proof -
  have "(\<lambda>i. f (xs ! i)) ` {..<n} = f ` set xs"
    using assms by (auto simp: set_conv_nth)
  then show ?thesis by simp
qed

lemma subdivide_union: "(\<Union>i<8. box_points (subdivide b ! i)) = box_points b"
proof -
  have "(\<Union>i<8. box_points (subdivide b ! i)) = (\<Union>x\<in>set (subdivide b). box_points x)"
    by (rule UN_nth_less) (rule subdivide_length)
  also have "\<dots> = box_points b"
    using contains_subdivide_iff [of b] by (auto simp: box_points_def)
  finally show ?thesis .
qed

lemma geo_subdivide_union: "(\<Union>i<4. rect_points (geo_subdivide r ! i)) = rect_points r"
proof -
  have "(\<Union>i<4. rect_points (geo_subdivide r ! i)) = (\<Union>x\<in>set (geo_subdivide r). rect_points x)"
    by (rule UN_nth_less) (rule geo_subdivide_length)
  also have "\<dots> = rect_points r"
    using geo_contains_subdivide_iff [of r] by (auto simp: rect_points_def)
  finally show ?thesis .
qed

lemma subdivide_interior_disjoint:
  assumes "i < 8" "j < 8" "i \<noteq> j"
  shows "box_interior (subdivide b ! i) \<inter> box_interior (subdivide b ! j) = {}"
proof -
  have bits: "bit i 0 \<noteq> bit j 0 \<or> bit i 1 \<noteq> bit j 1 \<or> bit i 2 \<noteq> bit j 2"
    using nat_less_8_cases [OF assms(1)] nat_less_8_cases [OF assms(2)] assms(3)
    by (elim disjE) (simp_all add: bit_iff_odd)
  show ?thesis
    using bits
    by (auto simp: subdivide_nth_bits assms child_by_bits_def box_interior_def Let_def
             split: if_splits)
qed

lemma geo_subdivide_interior_disjoint:
  assumes "i < 4" "j < 4" "i \<noteq> j"
  shows "rect_interior (geo_subdivide r ! i) \<inter> rect_interior (geo_subdivide r ! j) = {}"
  using nat_less_4_cases [OF assms(1)] nat_less_4_cases [OF assms(2)] assms(3)
  by (elim disjE) (auto simp: geo_subdivide_def rect_interior_def Let_def)

text \<open>
  With the exact midpoint, \<open>subdivide\<close> partitions every non-empty bounds: the sub-boxes
  (8 for an AABB, 4 for a GeoRect) have pairwise disjoint interiors, the union of their
  closed point sets is the closed point set of the original bounds, and the AABB child
  with index \<open>i\<close> takes the high half in x iff bit 0 of \<open>i\<close> is set, in y iff bit 1 is
  set and in z iff bit 2 is set (z-high is the most significant bit, x-high the least).
  This is a fact about real arithmetic; the midpoint that the code computes is the
  subject of the next section.
\<close>

lemma subdivide_partitions_bounds:
  "(\<not> bb_empty b \<longrightarrow>
      length (subdivide b) = 8 \<and>
      (\<Union>i<8. box_points (subdivide b ! i)) = box_points b \<and>
      (\<forall>i<8. \<forall>j<8. i \<noteq> j \<longrightarrow>
          box_interior (subdivide b ! i) \<inter> box_interior (subdivide b ! j) = {}) \<and>
      (\<forall>i<8. subdivide b ! i = child_by_bits b i)) \<and>
   (\<not> geo_empty r \<longrightarrow>
      length (geo_subdivide r) = 4 \<and>
      (\<Union>i<4. rect_points (geo_subdivide r ! i)) = rect_points r \<and>
      (\<forall>i<4. \<forall>j<4. i \<noteq> j \<longrightarrow>
          rect_interior (geo_subdivide r ! i) \<inter> rect_interior (geo_subdivide r ! j) = {}))"
proof (intro conjI impI allI)
  show "length (subdivide b) = 8" by (rule subdivide_length)
  show "(\<Union>i<8. box_points (subdivide b ! i)) = box_points b" by (rule subdivide_union)
  show "box_interior (subdivide b ! i) \<inter> box_interior (subdivide b ! j) = {}"
    if "i < 8" "j < 8" "i \<noteq> j" for i j
    using that by (rule subdivide_interior_disjoint)
  show "subdivide b ! i = child_by_bits b i" if "i < 8" for i
    using that by (rule subdivide_nth_bits)
  show "length (geo_subdivide r) = 4" by (rule geo_subdivide_length)
  show "(\<Union>i<4. rect_points (geo_subdivide r ! i)) = rect_points r"
    by (rule geo_subdivide_union)
  show "rect_interior (geo_subdivide r ! i) \<inter> rect_interior (geo_subdivide r ! j) = {}"
    if "i < 4" "j < 4" "i \<noteq> j" for i j
    using that by (rule geo_subdivide_interior_disjoint)
qed

lemma subdivide_partitions_bounds_witness:
  "\<not> bb_empty (BoundingBox (Vertex 0 0 0) (Vertex 2 2 2)) \<and>
   length (subdivide (BoundingBox (Vertex 0 0 0) (Vertex 2 2 2))) = 8 \<and>
   (\<Union>i<8. box_points (subdivide (BoundingBox (Vertex 0 0 0) (Vertex 2 2 2)) ! i))
      = box_points (BoundingBox (Vertex 0 0 0) (Vertex 2 2 2)) \<and>
   box_interior (subdivide (BoundingBox (Vertex 0 0 0) (Vertex 2 2 2)) ! 0)
      \<inter> box_interior (subdivide (BoundingBox (Vertex 0 0 0) (Vertex 2 2 2)) ! 7) = {} \<and>
   subdivide (BoundingBox (Vertex 0 0 0) (Vertex 2 2 2)) ! 5
      = BoundingBox (Vertex 1 0 1) (Vertex 2 1 2) \<and>
   \<not> geo_empty (GeoBBox 100 30 120 50) \<and>
   length (geo_subdivide (GeoBBox 100 30 120 50)) = 4 \<and>
   (\<Union>i<4. rect_points (geo_subdivide (GeoBBox 100 30 120 50) ! i))
      = rect_points (GeoBBox 100 30 120 50) \<and>
   rect_interior (geo_subdivide (GeoBBox 100 30 120 50) ! 1)
      \<inter> rect_interior (geo_subdivide (GeoBBox 100 30 120 50) ! 2) = {} \<and>
   geo_subdivide (GeoBBox 100 30 120 50) ! 3 = GeoBBox 110 40 120 50"
proof -
  let ?b = "BoundingBox (Vertex 0 0 0) (Vertex 2 2 2)"
  let ?r = "GeoBBox 100 30 120 50"
  have nb: "\<not> bb_empty ?b" by (simp add: bb_empty_def)
  have nr: "\<not> geo_empty ?r" by (simp add: geo_empty_def width_def height_def)
  note Tb = subdivide_partitions_bounds [of ?b ?r, THEN conjunct1, THEN mp, OF nb]
  note Tr = subdivide_partitions_bounds [of ?b ?r, THEN conjunct2, THEN mp, OF nr]
  note b1 = Tb [THEN conjunct1]
  note b2 = Tb [THEN conjunct2, THEN conjunct1]
  note b3' = Tb [THEN conjunct2, THEN conjunct2, THEN conjunct1]
  note b4' = Tb [THEN conjunct2, THEN conjunct2, THEN conjunct2]
  note r1 = Tr [THEN conjunct1]
  note r2 = Tr [THEN conjunct2, THEN conjunct1]
  note r3' = Tr [THEN conjunct2, THEN conjunct2]
  have b3: "box_interior (subdivide ?b ! 0) \<inter> box_interior (subdivide ?b ! 7) = {}"
    using b3' [THEN spec, of 0, THEN mp, THEN spec, of 7] by simp
  have "subdivide ?b ! 5 = child_by_bits ?b 5"
    using b4' [THEN spec, of 5] by simp
  then have b4: "subdivide ?b ! 5 = BoundingBox (Vertex 1 0 1) (Vertex 2 1 2)"
    by (simp add: child_by_bits_def center_def bit_iff_odd)
  have r3: "rect_interior (geo_subdivide ?r ! 1) \<inter> rect_interior (geo_subdivide ?r ! 2) = {}"
    using r3' [THEN spec, of 1, THEN mp, THEN spec, of 2] by simp
  have r4: "geo_subdivide ?r ! 3 = GeoBBox 110 40 120 50"
    by (simp add: geo_subdivide_def centerLon_def centerLat_def)
  show ?thesis by (intro conjI nb b1 b2 b3 b4 nr r1 r2 r3 r4)
qed

section \<open>The midpoint of \<open>subdivide\<close> in floating-point arithmetic\<close>

text \<open>
  \<open>BoundingBox::center\<close> computes \<open>(min[i] + max[i]) * 0.5f\<close> in \<open>float\<close>, and
  \<open>GeoBBox::centerLon\<close> and \<open>centerLat\<close> compute \<open>(min + max) * 0.5\<close> in \<open>double\<close>. A
  floating-point value is a finite real or an infinity (the operations below produce no
  NaN from finite operands).
\<close>

datatype fl = MinusInf | Finite real | PlusInf

definition fl_le :: "fl \<Rightarrow> fl \<Rightarrow> bool" where
  "fl_le a b =
     (case (a, b) of
        (MinusInf, _) \<Rightarrow> True
      | (_, PlusInf) \<Rightarrow> True
      | (Finite x, Finite y) \<Rightarrow> x \<le> y
      | _ \<Rightarrow> False)"

text \<open>
  With rounding to nearest, a sum overflows to an infinity when its exact value reaches
  the largest finite value plus half a unit in the last place: \<open>2^128 - 2^103\<close> in
  binary32 and \<open>2^1024 - 2^970\<close> in binary64.
\<close>

definition binary32_overflow :: real where
  "binary32_overflow = 2 ^ 128 - 2 ^ 103"

definition binary64_overflow :: real where
  "binary64_overflow = 2 ^ 1024 - 2 ^ 970"

text \<open>
  The sum of two finite values and the product with \<open>0.5\<close>. The rounding of a value
  within the finite range is the parameter \<open>rnd\<close>.
\<close>

definition fl_add :: "real \<Rightarrow> (real \<Rightarrow> real) \<Rightarrow> real \<Rightarrow> real \<Rightarrow> fl" where
  "fl_add overflow rnd a b =
     (if a + b \<ge> overflow then PlusInf
      else if a + b \<le> - overflow then MinusInf
      else Finite (rnd (a + b)))"

definition fl_half :: "(real \<Rightarrow> real) \<Rightarrow> fl \<Rightarrow> fl" where
  "fl_half rnd x =
     (case x of MinusInf \<Rightarrow> MinusInf | Finite v \<Rightarrow> Finite (rnd (v * 0.5)) | PlusInf \<Rightarrow> PlusInf)"

text \<open>\<open>BoundingBox::center\<close> and \<open>BoundingBox::subdivide\<close> on a box with finite corners.\<close>

definition center_fl :: "(real \<Rightarrow> real) \<Rightarrow> BoundingBox \<Rightarrow> fl \<times> fl \<times> fl" where
  "center_fl rnd b =
     (fl_half rnd (fl_add binary32_overflow rnd (c0 (bmin b)) (c0 (bmax b))),
      fl_half rnd (fl_add binary32_overflow rnd (c1 (bmin b)) (c1 (bmax b))),
      fl_half rnd (fl_add binary32_overflow rnd (c2 (bmin b)) (c2 (bmax b))))"

definition subdivide_fl ::
  "(real \<Rightarrow> real) \<Rightarrow> BoundingBox \<Rightarrow> ((fl \<times> fl \<times> fl) \<times> (fl \<times> fl \<times> fl)) list" where
  "subdivide_fl rnd b =
     (case center_fl rnd b of (cx, cy, cz) \<Rightarrow>
      (let mnx = Finite (c0 (bmin b)); mny = Finite (c1 (bmin b)); mnz = Finite (c2 (bmin b));
           mxx = Finite (c0 (bmax b)); mxy = Finite (c1 (bmax b)); mxz = Finite (c2 (bmax b))
       in [((mnx, mny, mnz), (cx, cy, cz)),
           ((cx, mny, mnz), (mxx, cy, cz)),
           ((mnx, cy, mnz), (cx, mxy, cz)),
           ((cx, cy, mnz), (mxx, mxy, cz)),
           ((mnx, mny, cz), (cx, cy, mxz)),
           ((cx, mny, cz), (mxx, cy, mxz)),
           ((mnx, cy, cz), (cx, mxy, mxz)),
           ((cx, cy, cz), (mxx, mxy, mxz))]))"

text \<open>\<open>BoundingBox::contains\<close> for a box whose corners may be infinite.\<close>

definition contains_fl :: "(fl \<times> fl \<times> fl) \<times> (fl \<times> fl \<times> fl) \<Rightarrow> Vertex \<Rightarrow> bool" where
  "contains_fl box point =
     (case box of ((mnx, mny, mnz), (mxx, mxy, mxz)) \<Rightarrow>
        fl_le mnx (Finite (c0 point)) \<and> fl_le (Finite (c0 point)) mxx \<and>
        fl_le mny (Finite (c1 point)) \<and> fl_le (Finite (c1 point)) mxy \<and>
        fl_le mnz (Finite (c2 point)) \<and> fl_le (Finite (c2 point)) mxz)"

text \<open>\<open>BoundingBox::empty\<close> for a box whose corners may be infinite.\<close>

definition empty_fl :: "(fl \<times> fl \<times> fl) \<times> (fl \<times> fl \<times> fl) \<Rightarrow> bool" where
  "empty_fl box =
     (case box of ((mnx, mny, mnz), (mxx, mxy, mxz)) \<Rightarrow>
        fl_le mxx mnx \<or> fl_le mxy mny \<or> fl_le mxz mnz)"

text \<open>\<open>GeoBBox::centerLon\<close>, \<open>centerLat\<close> and \<open>GeoBBox::subdivide\<close> in \<open>double\<close>.\<close>

definition geo_center_fl :: "(real \<Rightarrow> real) \<Rightarrow> GeoBBox \<Rightarrow> fl \<times> fl" where
  "geo_center_fl rnd r =
     (fl_half rnd (fl_add binary64_overflow rnd (minLon r) (maxLon r)),
      fl_half rnd (fl_add binary64_overflow rnd (minLat r) (maxLat r)))"

definition geo_subdivide_fl :: "(real \<Rightarrow> real) \<Rightarrow> GeoBBox \<Rightarrow> (fl \<times> fl \<times> fl \<times> fl) list" where
  "geo_subdivide_fl rnd r =
     (case geo_center_fl rnd r of (midLon, midLat) \<Rightarrow>
        [(Finite (minLon r), Finite (minLat r), midLon, midLat),
         (midLon, Finite (minLat r), Finite (maxLon r), midLat),
         (Finite (minLon r), midLat, midLon, Finite (maxLat r)),
         (midLon, midLat, Finite (maxLon r), Finite (maxLat r))])"

definition geo_contains_fl :: "fl \<times> fl \<times> fl \<times> fl \<Rightarrow> real \<Rightarrow> real \<Rightarrow> bool" where
  "geo_contains_fl rect lon lat =
     (case rect of (mnLon, mnLat, mxLon, mxLat) \<Rightarrow>
        fl_le mnLon (Finite lon) \<and> fl_le (Finite lon) mxLon \<and>
        fl_le mnLat (Finite lat) \<and> fl_le (Finite lat) mxLat)"

text \<open>
  A cube and a rectangle far from the origin. Their corners are powers of two times a
  small integer, so they are values of the floating-point types.
\<close>

definition farCube :: BoundingBox where
  "farCube = BoundingBox (Vertex (2 ^ 127) (2 ^ 127) (2 ^ 127))
                         (Vertex (3 * 2 ^ 126) (3 * 2 ^ 126) (3 * 2 ^ 126))"

definition farRect :: GeoBBox where
  "farRect = GeoBBox (2 ^ 1023) (2 ^ 1023) (3 * 2 ^ 1022) (3 * 2 ^ 1022)"

text \<open>The point \<open>1.75 \<cdot> 2^127\<close> on every axis, also a \<open>float\<close> value.\<close>

definition farPoint :: Vertex where
  "farPoint = Vertex (7 * 2 ^ 125) (7 * 2 ^ 125) (7 * 2 ^ 125)"

text \<open>
  C8 (the code at the failing input). The cube with the corners \<open>2^127\<close> and \<open>1.5 \<cdot> 2^127\<close>
  on every axis (about \<open>1.7e38\<close> and \<open>2.6e38\<close>, both finite \<open>float\<close> values) is not empty.
  The sum of its corners is \<open>1.25 \<cdot> 2^128\<close> on every axis and overflows, so \<open>center\<close>
  returns \<open>(+inf, +inf, +inf)\<close> whatever the rounding of finite results. Child 0 of
  \<open>subdivide\<close> is then the box from the minimum corner to \<open>+inf\<close>: it contains the point
  \<open>1.75 \<cdot> 2^127\<close> on every axis, which the cube does not contain. The union of the
  point sets of the eight children is not the point set of the original bounds, and
  child 7, the box from \<open>+inf\<close> to the maximum corner, is empty (test_geometry.cpp
  requires of \<open>subdivide\<close> that no child is empty). The same happens in \<open>double\<close> for the
  rectangle with the corners \<open>2^1023\<close> and \<open>1.5 \<cdot> 2^1023\<close> and the point \<open>1.75 \<cdot> 2^1023\<close>
  on both axes.
\<close>

theorem subdivide_midpoint_overflow:
  "\<not> bb_empty farCube \<and>
   center_fl rnd farCube = (PlusInf, PlusInf, PlusInf) \<and>
   contains_fl (subdivide_fl rnd farCube ! 0) farPoint \<and>
   \<not> contains farCube farPoint \<and>
   (\<Union>i<8. {p. contains_fl (subdivide_fl rnd farCube ! i) p}) \<noteq> box_points farCube \<and>
   empty_fl (subdivide_fl rnd farCube ! 7) \<and>
   \<not> geo_empty farRect \<and>
   geo_center_fl rnd farRect = (PlusInf, PlusInf) \<and>
   geo_contains_fl (geo_subdivide_fl rnd farRect ! 0) (7 * 2 ^ 1021) (7 * 2 ^ 1021) \<and>
   \<not> geo_contains farRect (7 * 2 ^ 1021) (7 * 2 ^ 1021) \<and>
   (\<Union>i<4. {(lon, lat). geo_contains_fl (geo_subdivide_fl rnd farRect ! i) lon lat})
     \<noteq> rect_points farRect"
proof -
  have ne: "\<not> bb_empty farCube" by (simp add: bb_empty_def farCube_def)
  have c: "center_fl rnd farCube = (PlusInf, PlusInf, PlusInf)"
    by (simp add: farCube_def center_fl_def fl_add_def fl_half_def binary32_overflow_def)
  have inside: "contains_fl (subdivide_fl rnd farCube ! 0) farPoint"
    by (simp add: subdivide_fl_def center_fl_def fl_add_def fl_half_def binary32_overflow_def
          Let_def contains_fl_def fl_le_def farCube_def farPoint_def)
  have outside: "\<not> contains farCube farPoint"
    by (simp add: contains_def farCube_def farPoint_def)
  have u: "(\<Union>i<8. {p. contains_fl (subdivide_fl rnd farCube ! i) p}) \<noteq> box_points farCube"
  proof
    assume eq: "(\<Union>i<8. {p. contains_fl (subdivide_fl rnd farCube ! i) p}) = box_points farCube"
    have "farPoint \<in> (\<Union>i<8. {p. contains_fl (subdivide_fl rnd farCube ! i) p})"
      using inside by (intro UN_I [of 0]) simp_all
    then have "farPoint \<in> box_points farCube" by (simp only: eq)
    then show False using outside by (simp add: box_points_def)
  qed
  have last: "empty_fl (subdivide_fl rnd farCube ! 7)"
    by (simp add: subdivide_fl_def center_fl_def fl_add_def fl_half_def binary32_overflow_def
          Let_def empty_fl_def fl_le_def farCube_def)
  have gne: "\<not> geo_empty farRect" by (simp add: geo_empty_def width_def height_def farRect_def)
  have gc: "geo_center_fl rnd farRect = (PlusInf, PlusInf)"
    by (simp add: farRect_def geo_center_fl_def fl_add_def fl_half_def binary64_overflow_def)
  have ginside: "geo_contains_fl (geo_subdivide_fl rnd farRect ! 0) (7 * 2 ^ 1021) (7 * 2 ^ 1021)"
    by (simp add: geo_subdivide_fl_def geo_center_fl_def fl_add_def fl_half_def
          binary64_overflow_def geo_contains_fl_def fl_le_def farRect_def)
  have goutside: "\<not> geo_contains farRect (7 * 2 ^ 1021) (7 * 2 ^ 1021)"
    by (simp add: geo_contains_def farRect_def)
  have gu: "(\<Union>i<4. {(lon, lat). geo_contains_fl (geo_subdivide_fl rnd farRect ! i) lon lat})
     \<noteq> rect_points farRect"
  proof
    assume eq: "(\<Union>i<4. {(lon, lat). geo_contains_fl (geo_subdivide_fl rnd farRect ! i) lon lat})
       = rect_points farRect"
    have "(7 * 2 ^ 1021, 7 * 2 ^ 1021) \<in>
        (\<Union>i<4. {(lon, lat). geo_contains_fl (geo_subdivide_fl rnd farRect ! i) lon lat})"
      using ginside by (intro UN_I [of 0]) simp_all
    then have "(7 * 2 ^ 1021, 7 * 2 ^ 1021) \<in> rect_points farRect" by (simp only: eq)
    then show False using goutside by (simp add: rect_points_def)
  qed
  show ?thesis by (intro conjI ne c inside outside u last gne gc ginside goutside gu)
qed

section \<open>Meshes (Mesh.hpp, Mesh.cpp)\<close>

type_synonym Index = "32 word"

datatype TexCoord = TexCoord real real

datatype Color = Color "8 word" "8 word" "8 word" "8 word"

record VertexAttributes =
  positions :: "Vertex list"
  normals :: "Vertex list"
  texCoords :: "TexCoord list"
  colors :: "Color list"

record Mesh =
  vertices :: VertexAttributes
  indices :: "Index list"

definition emptyVertices :: VertexAttributes where
  "emptyVertices = \<lparr>positions = [], normals = [], texCoords = [], colors = []\<rparr>"

text \<open>The default-constructed \<open>Mesh{}\<close>.\<close>

definition emptyMesh :: Mesh where
  "emptyMesh = \<lparr>vertices = emptyVertices, indices = []\<rparr>"

text \<open>\<open>VertexAttributes::size\<close> is the length of the position array.\<close>

definition vertexCount :: "Mesh \<Rightarrow> nat" where
  "vertexCount m = length (positions (vertices m))"

definition triangleCount :: "Mesh \<Rightarrow> nat" where
  "triangleCount m = length (indices m) div 3"

definition mesh_empty :: "Mesh \<Rightarrow> bool" where
  "mesh_empty m \<longleftrightarrow> positions (vertices m) = [] \<or> indices m = []"

subsection \<open>\<open>Mesh::subset\<close> (Mesh.cpp, lines 12-80)\<close>

text \<open>
  Reading a \<open>std::vector\<close> past its end is undefined behaviour in the source; the model
  makes it an explicit outcome.
\<close>

datatype fault = OutOfBoundsRead

text \<open>
  Both loops of \<open>subset\<close> guard a triangle by \<open>triIndex * 3 + 2 < indices_.size()\<close> and
  then read \<open>indices_[triIndex * 3]\<close>, \<open>indices_[triIndex * 3 + 1]\<close> and
  \<open>indices_[triIndex * 3 + 2]\<close>. \<open>triIndex\<close> is a \<open>uint32_t\<close>, so the three products and
  sums are computed in 32 bits and wrap around before they are widened to \<open>size_t\<close>.
  The result is \<open>None\<close> when the guard rejects the triangle.
\<close>

definition readTriangle :: "Index list \<Rightarrow> Index \<Rightarrow> fault + (Index \<times> Index \<times> Index) option" where
  "readTriangle idx triIndex =
     (if unat (triIndex * 3 + 2) < length idx then
        (if unat (triIndex * 3) < length idx \<and> unat (triIndex * 3 + 1) < length idx
         then Inr (Some (idx ! unat (triIndex * 3), idx ! unat (triIndex * 3 + 1),
                         idx ! unat (triIndex * 3 + 2)))
         else Inl OutOfBoundsRead)
      else Inr None)"

text \<open>
  First loop: the \<open>std::set<Index> usedVertices\<close>, kept as its ascending list of
  distinct elements (the order in which the second loop iterates over it).
\<close>

fun collectUsed :: "Index list \<Rightarrow> Index list \<Rightarrow> Index list \<Rightarrow> fault + Index list" where
  "collectUsed idx [] usedVertices = Inr usedVertices"
| "collectUsed idx (triIndex # rest) usedVertices =
     (case readTriangle idx triIndex of
        Inl e \<Rightarrow> Inl e
      | Inr None \<Rightarrow> collectUsed idx rest usedVertices
      | Inr (Some (i0, i1, i2)) \<Rightarrow>
          collectUsed idx rest
            (insort_insert i2 (insort_insert i1 (insort_insert i0 usedVertices))))"

text \<open>
  Second loop: the remap table and the new vertex buffer. The state is
  \<open>(newIndex, vertexRemap, newVertices)\<close>.
\<close>

fun buildRemap ::
  "VertexAttributes \<Rightarrow> Index list \<Rightarrow> Index \<times> (Index \<rightharpoonup> Index) \<times> VertexAttributes
     \<Rightarrow> Index \<times> (Index \<rightharpoonup> Index) \<times> VertexAttributes" where
  "buildRemap vs [] st = st"
| "buildRemap vs (oldIndex # rest) (newIndex, vertexRemap, newVertices) =
     (if unat oldIndex < length (positions vs) then
        buildRemap vs rest
          (newIndex + 1, vertexRemap(oldIndex \<mapsto> newIndex),
           \<lparr>positions = positions newVertices @ [positions vs ! unat oldIndex],
            normals = (if unat oldIndex < length (normals vs)
                       then normals newVertices @ [normals vs ! unat oldIndex]
                       else normals newVertices),
            texCoords = (if unat oldIndex < length (texCoords vs)
                         then texCoords newVertices @ [texCoords vs ! unat oldIndex]
                         else texCoords newVertices),
            colors = (if unat oldIndex < length (colors vs)
                      then colors newVertices @ [colors vs ! unat oldIndex]
                      else colors newVertices)\<rparr>)
      else buildRemap vs rest (newIndex, vertexRemap, newVertices))"

text \<open>Third loop: the new index buffer.\<close>

fun rebuildIndices ::
  "Index list \<Rightarrow> (Index \<rightharpoonup> Index) \<Rightarrow> Index list \<Rightarrow> Index list \<Rightarrow> fault + Index list" where
  "rebuildIndices idx vertexRemap [] newIndices = Inr newIndices"
| "rebuildIndices idx vertexRemap (triIndex # rest) newIndices =
     (case readTriangle idx triIndex of
        Inl e \<Rightarrow> Inl e
      | Inr None \<Rightarrow> rebuildIndices idx vertexRemap rest newIndices
      | Inr (Some (i0, i1, i2)) \<Rightarrow>
          (case (vertexRemap i0, vertexRemap i1, vertexRemap i2) of
             (Some n0, Some n1, Some n2) \<Rightarrow>
               rebuildIndices idx vertexRemap rest (newIndices @ [n0, n1, n2])
           | _ \<Rightarrow> rebuildIndices idx vertexRemap rest newIndices))"

definition subset :: "Mesh \<Rightarrow> Index list \<Rightarrow> fault + Mesh" where
  "subset m triangleIndices =
     (if triangleIndices = [] \<or> indices m = [] then Inr emptyMesh
      else
        (case collectUsed (indices m) triangleIndices [] of
           Inl e \<Rightarrow> Inl e
         | Inr usedVertices \<Rightarrow>
             (case buildRemap (vertices m) usedVertices (0, Map.empty, emptyVertices) of
                (newIndex, vertexRemap, newVertices) \<Rightarrow>
                  (case rebuildIndices (indices m) vertexRemap triangleIndices [] of
                     Inl e \<Rightarrow> Inl e
                   | Inr newIndices \<Rightarrow> Inr \<lparr>vertices = newVertices, indices = newIndices\<rparr>))))"

subsection \<open>\<open>simplifyMesh\<close> (LodAlgorithm.cpp, lines 111-154)\<close>

text \<open>
  \<open>meshopt_simplify\<close> belongs to the external meshoptimizer library and is a parameter
  of the model. It receives the input indices, the flattened positions, the vertex count,
  the stride, the target index count and the target error; it yields the contents of the
  destination buffer after the call and the returned index count.
\<close>

type_synonym simplify_kernel =
  "Index list \<Rightarrow> real list \<Rightarrow> nat \<Rightarrow> nat \<Rightarrow> nat \<Rightarrow> real \<Rightarrow> Index list \<times> nat"

text \<open>\<open>std::vector::resize\<close>: truncate, or pad with value-initialised elements.\<close>

definition resize :: "nat \<Rightarrow> Index list \<Rightarrow> Index list" where
  "resize n xs = take n xs @ replicate (n - length xs) 0"

definition simplifyMesh :: "simplify_kernel \<Rightarrow> Mesh \<Rightarrow> nat \<Rightarrow> Mesh" where
  "simplifyMesh meshopt_simplify mesh targetTriangleCount =
     (if mesh_empty mesh \<or> triangleCount mesh \<le> targetTriangleCount then mesh
      else
        (let vertexData = concat (map (\<lambda>pos. [c0 pos, c1 pos, c2 pos]) (positions (vertices mesh)));
             inputIndices = indices mesh;
             targetError = 0.01;
             (dst, resultCount) =
                meshopt_simplify inputIndices vertexData (length (positions (vertices mesh))) 12
                  (targetTriangleCount * 3) targetError;
             outputIndices = resize resultCount dst
         in \<lparr>vertices = vertices mesh, indices = outputIndices\<rparr>))"

text \<open>
  Every vertex of the vertex buffer is referenced by at least one index of the index
  buffer.
\<close>

definition compact :: "Mesh \<Rightarrow> bool" where
  "compact m \<longleftrightarrow> (\<forall>k < vertexCount m. \<exists>i \<in> set (indices m). unat i = k)"

text \<open>The data model's invariant: every index is less than the vertex count.\<close>

definition indices_valid :: "Mesh \<Rightarrow> bool" where
  "indices_valid m \<longleftrightarrow> (\<forall>i \<in> set (indices m). unat i < vertexCount m)"

text \<open>A kernel that keeps the first \<open>target_index_count\<close> indices of its input.\<close>

definition prefix_kernel :: simplify_kernel where
  "prefix_kernel inputIndices vertexData nVertices stride targetIndexCount targetError =
     (take targetIndexCount inputIndices @ replicate (length inputIndices - targetIndexCount) 0,
      min targetIndexCount (length inputIndices))"

text \<open>A tetrahedron's first two faces: four vertices, two triangles.\<close>

definition mesh4 :: Mesh where
  "mesh4 = \<lparr>vertices = \<lparr>positions = [Vertex 0 0 0, Vertex 1 0 0, Vertex 0 1 0, Vertex 0 0 1],
                          normals = [], texCoords = [], colors = []\<rparr>,
            indices = [0, 1, 2, 1, 2, 3]\<rparr>"

text \<open>One triangle over three vertices.\<close>

definition mesh1 :: Mesh where
  "mesh1 = \<lparr>vertices = \<lparr>positions = [Vertex 0 0 0, Vertex 1 0 0, Vertex 0 1 0],
                          normals = [], texCoords = [], colors = []\<rparr>,
            indices = [0, 1, 2]\<rparr>"

text \<open>One vertex and a triangle that names a vertex which does not exist.\<close>

definition mesh_dangling :: Mesh where
  "mesh_dangling = \<lparr>vertices = \<lparr>positions = [Vertex 0 0 0],
                          normals = [], texCoords = [], colors = []\<rparr>,
            indices = [0, 5, 5]\<rparr>"

text \<open>One triangle and a fourth vertex that no index references.\<close>

definition mesh_unref :: Mesh where
  "mesh_unref = \<lparr>vertices = \<lparr>positions = [Vertex 0 0 0, Vertex 1 0 0, Vertex 0 1 0, Vertex 0 0 1],
                          normals = [], texCoords = [], colors = []\<rparr>,
            indices = [0, 1, 2]\<rparr>"

section \<open>Properties of \<open>subset\<close>\<close>

text \<open>The vertex indices of the triangle that the two loops read for a triangle id.\<close>

definition tri_verts :: "Index list \<Rightarrow> Index \<Rightarrow> Index set" where
  "tri_verts idx t =
     (case readTriangle idx t of Inr (Some (a, b, c)) \<Rightarrow> {a, b, c} | _ \<Rightarrow> {})"

lemma readTriangle_in_set:
  assumes "readTriangle idx t = Inr (Some (a, b, c))"
  shows "a \<in> set idx \<and> b \<in> set idx \<and> c \<in> set idx"
  using assms by (auto simp: readTriangle_def split: if_splits)

lemma tri_verts_subset: "tri_verts idx t \<subseteq> set idx"
  by (auto simp: tri_verts_def split: sum.splits option.splits dest: readTriangle_in_set)

lemma collectUsed_sorted_distinct:
  "collectUsed idx ts used = Inr U \<Longrightarrow> sorted used \<Longrightarrow> distinct used
     \<Longrightarrow> sorted U \<and> distinct U"
proof (induction ts arbitrary: used)
  case Nil
  then show ?case by simp
next
  case (Cons t ts)
  show ?case
  proof (cases "readTriangle idx t")
    case (Inl e)
    with Cons.prems show ?thesis by simp
  next
    case (Inr r)
    show ?thesis
    proof (cases r)
      case None
      with Inr Cons show ?thesis by simp
    next
      case (Some tri)
      obtain a b c where tri: "tri = (a, b, c)" by (cases tri) auto
      let ?u = "insort_insert c (insort_insert b (insort_insert a used))"
      have "collectUsed idx ts ?u = Inr U"
        using Cons.prems(1) Inr Some tri by simp
      moreover have "sorted ?u" "distinct ?u"
        using Cons.prems(2,3) by (simp_all add: sorted_insort_insert distinct_insort_insert)
      ultimately show ?thesis by (rule Cons.IH)
    qed
  qed
qed

lemma collectUsed_set:
  "collectUsed idx ts used = Inr U \<Longrightarrow> set U = set used \<union> (\<Union>t\<in>set ts. tri_verts idx t)"
proof (induction ts arbitrary: used)
  case Nil
  then show ?case by simp
next
  case (Cons t ts)
  show ?case
  proof (cases "readTriangle idx t")
    case (Inl e)
    with Cons.prems show ?thesis by simp
  next
    case (Inr r)
    show ?thesis
    proof (cases r)
      case None
      with Inr Cons show ?thesis by (simp add: tri_verts_def)
    next
      case (Some tri)
      obtain a b c where tri: "tri = (a, b, c)" by (cases tri) auto
      let ?u = "insort_insert c (insort_insert b (insort_insert a used))"
      have "collectUsed idx ts ?u = Inr U"
        using Cons.prems(1) Inr Some tri by simp
      then have "set U = set ?u \<union> (\<Union>t\<in>set ts. tri_verts idx t)" by (rule Cons.IH)
      moreover have "set ?u = set used \<union> tri_verts idx t"
        using Inr Some tri by (auto simp: set_insort_insert tri_verts_def)
      ultimately show ?thesis by auto
    qed
  qed
qed

lemma buildRemap_all_in_range:
  "\<forall>v\<in>set olds. unat v < length (positions vs) \<Longrightarrow> distinct olds \<Longrightarrow>
   buildRemap vs olds (n, remap, nv) = (n', remap', nv') \<Longrightarrow>
     positions nv' = positions nv @ map (\<lambda>v. positions vs ! unat v) olds \<and>
     (\<forall>k<length olds. remap' (olds ! k) = Some (n + of_nat k)) \<and>
     (\<forall>v. v \<notin> set olds \<longrightarrow> remap' v = remap v)"
proof (induction olds arbitrary: n remap nv)
  case Nil
  then show ?case by simp
next
  case (Cons old olds)
  let ?nv = "\<lparr>positions = positions nv @ [positions vs ! unat old],
            normals = (if unat old < length (normals vs)
                       then normals nv @ [normals vs ! unat old] else normals nv),
            texCoords = (if unat old < length (texCoords vs)
                         then texCoords nv @ [texCoords vs ! unat old] else texCoords nv),
            colors = (if unat old < length (colors vs)
                      then colors nv @ [colors vs ! unat old] else colors nv)\<rparr>"
  have step: "buildRemap vs olds (n + 1, remap(old \<mapsto> n), ?nv) = (n', remap', nv')"
    using Cons.prems by simp
  have IH: "positions nv' = positions ?nv @ map (\<lambda>v. positions vs ! unat v) olds \<and>
     (\<forall>k<length olds. remap' (olds ! k) = Some (n + 1 + of_nat k)) \<and>
     (\<forall>v. v \<notin> set olds \<longrightarrow> remap' v = (remap(old \<mapsto> n)) v)"
    using Cons.prems(1,2) by (intro Cons.IH [OF _ _ step]) auto
  have old: "old \<notin> set olds" using Cons.prems(2) by simp
  have "remap' ((old # olds) ! k) = Some (n + of_nat k)" if "k < length (old # olds)" for k
  proof (cases k)
    case 0
    then show ?thesis using IH old by simp
  next
    case (Suc j)
    then show ?thesis using IH that by (simp add: add.assoc add.commute)
  qed
  then show ?case using IH by simp
qed

lemma rebuildIndices_acc:
  "rebuildIndices idx remap ts acc = Inr R \<Longrightarrow> set acc \<subseteq> set R"
proof (induction ts arbitrary: acc)
  case Nil
  then show ?case by simp
next
  case (Cons t ts)
  then show ?case
    by (fastforce split: sum.splits option.splits prod.splits)
qed

lemma rebuildIndices_set:
  "rebuildIndices idx remap ts acc = Inr R \<Longrightarrow> t \<in> set ts \<Longrightarrow>
   readTriangle idx t = Inr (Some (a, b, c)) \<Longrightarrow>
   remap a = Some x \<Longrightarrow> remap b = Some y \<Longrightarrow> remap c = Some z \<Longrightarrow>
   x \<in> set R \<and> y \<in> set R \<and> z \<in> set R"
proof (induction ts arbitrary: acc)
  case Nil
  then show ?case by simp
next
  case (Cons u ts)
  show ?case
  proof (cases "u = t")
    case True
    then have "rebuildIndices idx remap ts (acc @ [x, y, z]) = Inr R"
      using Cons.prems by simp
    then have "set (acc @ [x, y, z]) \<subseteq> set R" by (rule rebuildIndices_acc)
    then show ?thesis by simp
  next
    case False
    then have t: "t \<in> set ts" using Cons.prems(2) by simp
    obtain acc' where "rebuildIndices idx remap ts acc' = Inr R"
      using Cons.prems(1) by (auto split: sum.splits option.splits prod.splits)
    then show ?thesis using t Cons.prems(3-6) by (rule Cons.IH)
  qed
qed

lemma distinct_word32_length:
  fixes xs :: "Index list"
  assumes "distinct xs"
  shows "length xs \<le> 2 ^ 32"
proof -
  have "length xs = card (set xs)" using assms by (simp add: distinct_card)
  also have "\<dots> \<le> card (UNIV :: Index set)" by (rule card_mono) simp_all
  also have "\<dots> = 2 ^ 32" by (simp add: card_word)
  finally show ?thesis .
qed

lemma subset_compact:
  assumes valid: "indices_valid m"
    and sub: "subset m ts = Inr m'"
  shows "compact m'"
proof (cases "ts = [] \<or> indices m = []")
  case True
  then have "m' = emptyMesh" using sub by (simp add: subset_def)
  then show ?thesis by (simp add: compact_def vertexCount_def emptyMesh_def emptyVertices_def)
next
  case False
  obtain U where U: "collectUsed (indices m) ts [] = Inr U"
    using sub False by (auto simp: subset_def split: sum.splits)
  obtain n' remap' nv' where B: "buildRemap (vertices m) U (0, Map.empty, emptyVertices) = (n', remap', nv')"
    by (cases "buildRemap (vertices m) U (0, Map.empty, emptyVertices)") auto
  obtain R where R: "rebuildIndices (indices m) remap' ts [] = Inr R"
    and m': "m' = \<lparr>vertices = nv', indices = R\<rparr>"
    using sub False U B by (auto simp: subset_def split: sum.splits)
  have sd: "sorted U \<and> distinct U" using U by (rule collectUsed_sorted_distinct) simp_all
  have setU: "set U = (\<Union>t\<in>set ts. tri_verts (indices m) t)"
    using collectUsed_set [OF U] by simp
  have inr: "\<forall>v\<in>set U. unat v < length (positions (vertices m))"
    using setU tri_verts_subset valid by (fastforce simp: indices_valid_def vertexCount_def)
  have P: "positions nv' = positions emptyVertices @ map (\<lambda>v. positions (vertices m) ! unat v) U \<and>
     (\<forall>k<length U. remap' (U ! k) = Some (0 + of_nat k)) \<and>
     (\<forall>v. v \<notin> set U \<longrightarrow> remap' v = Map.empty v)"
    using inr sd B by (intro buildRemap_all_in_range) auto
  have len: "length (positions nv') = length U" using P by (simp add: emptyVertices_def)
  have remapU: "remap' (U ! k) = Some (of_nat k)" if "k < length U" for k
    using P that by simp
  have remap_def: "\<exists>x. remap' v = Some x" if "v \<in> set U" for v
    using that remapU by (auto simp: in_set_conv_nth)
  show ?thesis
    unfolding compact_def
  proof (intro allI impI)
    fix k assume "k < vertexCount m'"
    then have k: "k < length U" using len m' by (simp add: vertexCount_def)
    then have "U ! k \<in> set U" by simp
    then obtain t where t: "t \<in> set ts" "U ! k \<in> tri_verts (indices m) t"
      using setU by auto
    then obtain a b c where tri: "readTriangle (indices m) t = Inr (Some (a, b, c))"
      and kin: "U ! k \<in> {a, b, c}"
      by (auto simp: tri_verts_def split: sum.splits option.splits)
    have "tri_verts (indices m) t = {a, b, c}" using tri by (simp add: tri_verts_def)
    then have "{a, b, c} \<subseteq> set U"
      using setU t(1) by blast
    then obtain x y z where xyz: "remap' a = Some x" "remap' b = Some y" "remap' c = Some z"
      using remap_def by (meson insert_subset)
    have inR: "x \<in> set R \<and> y \<in> set R \<and> z \<in> set R"
      using R t(1) tri xyz by (rule rebuildIndices_set)
    have "of_nat k \<in> {x, y, z}"
      using kin xyz remapU [OF k] by auto
    then have "(of_nat k :: Index) \<in> set (indices m')" using inR m' by auto
    moreover have "unat (of_nat k :: Index) = k"
    proof -
      have "length U \<le> 2 ^ 32" using sd by (intro distinct_word32_length) simp
      then have "k < 2 ^ 32" using k by simp
      then show ?thesis by (intro of_nat_inverse [OF refl]) simp
    qed
    ultimately show "\<exists>i\<in>set (indices m'). unat i = k" by blast
  qed
qed

lemma simplifyMesh_vertices: "vertices (simplifyMesh k m target) = vertices m"
  by (simp add: simplifyMesh_def Let_def split: prod.splits)

lemma simplifyMesh_unchanged:
  "triangleCount m \<le> target \<Longrightarrow> simplifyMesh k m target = m"
  by (simp add: simplifyMesh_def)

lemmas mesh_eval_simps =
  subset_def readTriangle_def emptyVertices_def emptyMesh_def insort_insert_key_def
  word_le_nat_alt word_less_nat_alt

text \<open>
  C3 (as stated: every vertex of a mesh produced by subset or by simplify is referenced by
  an index) fails for \<open>simplifyMesh\<close>, which copies the whole input vertex buffer: on the
  early-return path a mesh with an unreferenced vertex comes back unchanged, and when the
  kernel drops the second triangle of \<open>mesh4\<close> its fourth vertex stays in the buffer.
  It also fails for \<open>subset\<close> on a mesh that breaks the index invariant: the triangle
  \<open>(0, 5, 5)\<close> of \<open>mesh_dangling\<close> is dropped because vertex 5 does not exist, after
  vertex 0 has been copied.
\<close>

theorem simplify_not_compact_counterexample:
  "\<not> compact (simplifyMesh prefix_kernel mesh_unref 1) \<and>
   compact mesh4 \<and> \<not> compact (simplifyMesh prefix_kernel mesh4 1) \<and>
   subset mesh_dangling [0] =
     Inr \<lparr>vertices = \<lparr>positions = [Vertex 0 0 0], normals = [], texCoords = [], colors = []\<rparr>,
          indices = []\<rparr> \<and>
   \<not> compact \<lparr>vertices = \<lparr>positions = [Vertex 0 0 0], normals = [], texCoords = [],
                             colors = []\<rparr>,
               indices = []\<rparr>"
proof -
  have a: "simplifyMesh prefix_kernel mesh_unref 1 = mesh_unref"
    by (simp add: simplifyMesh_def triangleCount_def mesh_unref_def)
  have b: "\<not> compact mesh_unref"
    by (auto simp: compact_def vertexCount_def mesh_unref_def intro!: exI [of _ 3])
  have c: "compact mesh4"
  proof -
    have "k = 0 \<or> k = 1 \<or> k = 2 \<or> k = 3" if "k < 4" for k :: nat using that by arith
    then show ?thesis
      by (auto simp: compact_def vertexCount_def mesh4_def)
  qed
  have d: "simplifyMesh prefix_kernel mesh4 1 =
      \<lparr>vertices = vertices mesh4, indices = [0, 1, 2]\<rparr>"
    by (simp add: simplifyMesh_def triangleCount_def mesh4_def mesh_empty_def
          prefix_kernel_def resize_def)
  have e: "\<not> compact \<lparr>vertices = vertices mesh4, indices = [0, 1, 2]\<rparr>"
    by (auto simp: compact_def vertexCount_def mesh4_def intro!: exI [of _ 3])
  have f: "subset mesh_dangling [0] =
     Inr \<lparr>vertices = \<lparr>positions = [Vertex 0 0 0], normals = [], texCoords = [], colors = []\<rparr>,
          indices = []\<rparr>"
    by (simp add: mesh_eval_simps mesh_dangling_def)
  have g: "\<not> compact \<lparr>vertices = \<lparr>positions = [Vertex 0 0 0], normals = [], texCoords = [],
                             colors = []\<rparr>,
               indices = []\<rparr>"
    by (simp add: compact_def vertexCount_def)
  show ?thesis using a b c d e f g by simp
qed

text \<open>
  C3 (amended). For every mesh whose indices are all less than the vertex count, every
  vertex of a mesh produced by \<open>subset\<close> is referenced by at least one of its indices.
  \<open>simplifyMesh\<close> does not compact: its result carries the vertex buffer of its input.
\<close>

theorem subset_compact_simplify_keeps_vertices:
  "(indices_valid m \<and> subset m ts = Inr m' \<longrightarrow> compact m') \<and>
   vertices (simplifyMesh k m target) = vertices m"
  using subset_compact simplifyMesh_vertices by blast

theorem subset_compact_simplify_keeps_vertices_witness:
  "indices_valid mesh4 \<and>
   subset mesh4 [1] =
     Inr \<lparr>vertices = \<lparr>positions = [Vertex 1 0 0, Vertex 0 1 0, Vertex 0 0 1],
                       normals = [], texCoords = [], colors = []\<rparr>,
          indices = [0, 1, 2]\<rparr> \<and>
   compact \<lparr>vertices = \<lparr>positions = [Vertex 1 0 0, Vertex 0 1 0, Vertex 0 0 1],
                         normals = [], texCoords = [], colors = []\<rparr>,
            indices = [0, 1, 2]\<rparr> \<and>
   vertices (simplifyMesh prefix_kernel mesh4 1) = vertices mesh4"
proof -
  let ?m' = "\<lparr>vertices = \<lparr>positions = [Vertex 1 0 0, Vertex 0 1 0, Vertex 0 0 1],
                         normals = [], texCoords = [], colors = []\<rparr>,
            indices = [0, 1, 2 :: Index]\<rparr>"
  have v: "indices_valid mesh4"
    by (simp add: indices_valid_def vertexCount_def mesh4_def)
  have s: "subset mesh4 [1] = Inr ?m'"
    by (simp add: mesh_eval_simps mesh4_def)
  note T = subset_compact_simplify_keeps_vertices [of mesh4 "[1]" ?m' prefix_kernel 1]
  have c: "compact ?m'" using T [THEN conjunct1, THEN mp, OF conjI [OF v s]] .
  show ?thesis using v s c T [THEN conjunct2] by simp
qed

text \<open>
  C5. For every mesh and every target triangle count with
  \<open>|triangles(mesh)| \<le> target\<close>, \<open>simplifyMesh\<close> returns the mesh unchanged: the same
  vertex buffer and the same index buffer, whatever the simplification kernel.
\<close>

theorem simplify_unchanged_when_target_reached:
  "triangleCount m \<le> target \<Longrightarrow>
     simplifyMesh k m target = m \<and>
     vertices (simplifyMesh k m target) = vertices m \<and>
     indices (simplifyMesh k m target) = indices m"
  by (simp add: simplifyMesh_def)

theorem simplify_unchanged_when_target_reached_witness:
  "triangleCount mesh4 \<le> 2 \<and>
   simplifyMesh prefix_kernel mesh4 2 = mesh4 \<and>
   vertices (simplifyMesh prefix_kernel mesh4 2) = vertices mesh4 \<and>
   indices (simplifyMesh prefix_kernel mesh4 2) = indices mesh4"
proof -
  have h: "triangleCount mesh4 \<le> 2" by (simp add: triangleCount_def mesh4_def)
  show ?thesis
    using h simplify_unchanged_when_target_reached [OF h, of prefix_kernel] by simp
qed

text \<open>
  C10 (the code at the failing input). The guard \<open>triIndex * 3 + 2 < indices_.size()\<close> is
  computed in 32 bits. For the triangle id \<open>0x55555555\<close> the product is \<open>0xFFFFFFFF\<close> and
  the sum wraps to 1, so the guard accepts the id on a three-element index buffer and
  \<open>indices_[0xFFFFFFFF]\<close> is read. For the id \<open>0x55555556\<close> the product wraps to 2: the
  id is not skipped either, and the entries 2, 3 and 4 of the index buffer are taken for
  a triangle.
\<close>

theorem subset_wrapped_triangle_id:
  "subset mesh1 [0x55555555] = Inl OutOfBoundsRead \<and>
   subset mesh4 [0x55555556] =
     Inr \<lparr>vertices = \<lparr>positions = [Vertex 1 0 0, Vertex 0 1 0],
                       normals = [], texCoords = [], colors = []\<rparr>,
          indices = [1, 0, 1]\<rparr>"
  by (simp add: mesh_eval_simps mesh1_def mesh4_def)

section \<open>Centroid routing in the octree builder (Geometry.cpp, lines 266-368)\<close>

text \<open>
  The second \<open>buildOctree\<close> works on the mesh of Types.hpp, whose vertices carry a
  \<open>position\<close> of type \<open>Vec3\<close>, and on its \<open>BoundingBox {Vec3 min, max}\<close>; both are
  represented by \<open>Vertex\<close> and \<open>BoundingBox\<close> here. The definitions below are the parts
  of the lambda \<open>buildNode\<close> that distribute the triangles of a node over its children.
\<close>

text \<open>The \<open>center\<close> of \<open>buildNode\<close>.\<close>

definition nodeCenter :: "BoundingBox \<Rightarrow> Vertex" where
  "nodeCenter bounds =
     Vertex ((c0 (bmin bounds) + c0 (bmax bounds)) / 2)
            ((c1 (bmin bounds) + c1 (bmax bounds)) / 2)
            ((c2 (bmin bounds) + c2 (bmax bounds)) / 2)"

definition childBounds :: "BoundingBox \<Rightarrow> BoundingBox list" where
  "childBounds bounds =
     (let ctr = nodeCenter bounds; mn = bmin bounds; mx = bmax bounds in
      [BoundingBox (Vertex (c0 mn) (c1 mn) (c2 mn)) (Vertex (c0 ctr) (c1 ctr) (c2 ctr)),
       BoundingBox (Vertex (c0 ctr) (c1 mn) (c2 mn)) (Vertex (c0 mx) (c1 ctr) (c2 ctr)),
       BoundingBox (Vertex (c0 mn) (c1 ctr) (c2 mn)) (Vertex (c0 ctr) (c1 mx) (c2 ctr)),
       BoundingBox (Vertex (c0 ctr) (c1 ctr) (c2 mn)) (Vertex (c0 mx) (c1 mx) (c2 ctr)),
       BoundingBox (Vertex (c0 mn) (c1 mn) (c2 ctr)) (Vertex (c0 ctr) (c1 ctr) (c2 mx)),
       BoundingBox (Vertex (c0 ctr) (c1 mn) (c2 ctr)) (Vertex (c0 mx) (c1 ctr) (c2 mx)),
       BoundingBox (Vertex (c0 mn) (c1 ctr) (c2 ctr)) (Vertex (c0 ctr) (c1 mx) (c2 mx)),
       BoundingBox (Vertex (c0 ctr) (c1 ctr) (c2 ctr)) (Vertex (c0 mx) (c1 mx) (c2 mx))])"

text \<open>The three comparisons that set the bits of \<open>childIndex\<close>.\<close>

definition childIndexOf :: "Vertex \<Rightarrow> Vertex \<Rightarrow> nat" where
  "childIndexOf ctr triCenter =
     (let childIndex = 0;
          childIndex = (if c0 triCenter \<ge> c0 ctr then childIndex OR 1 else childIndex);
          childIndex = (if c1 triCenter \<ge> c1 ctr then childIndex OR 2 else childIndex);
          childIndex = (if c2 triCenter \<ge> c2 ctr then childIndex OR 4 else childIndex)
      in childIndex)"

text \<open>
  The loop over \<open>triangleIndices\<close>: each triangle id is appended to the bucket of its
  child index. \<open>triangleCenters[triIdx]\<close> is a vector read.
\<close>

fun assignTriangles ::
  "Vertex \<Rightarrow> Vertex list \<Rightarrow> 32 word list \<Rightarrow> 32 word list list \<Rightarrow> fault + 32 word list list" where
  "assignTriangles ctr triangleCenters [] childTriangles = Inr childTriangles"
| "assignTriangles ctr triangleCenters (triIdx # rest) childTriangles =
     (if unat triIdx < length triangleCenters then
        (let triCenter = triangleCenters ! unat triIdx;
             childIndex = childIndexOf ctr triCenter
         in assignTriangles ctr triangleCenters rest
              (childTriangles[childIndex := childTriangles ! childIndex @ [triIdx]]))
      else Inl OutOfBoundsRead)"

text \<open>
  The rule the specification words: the lowest-index child whose closed sub-bounds
  contain the centroid.
\<close>

definition lowest_containing_child :: "BoundingBox \<Rightarrow> Vertex \<Rightarrow> nat option" where
  "lowest_containing_child bounds p =
     List.find (\<lambda>i. contains (childBounds bounds ! i) p) [0..<8]"

lemma nat_or_values:
  "(0::nat) OR 1 = 1" "(0::nat) OR 2 = 2" "(0::nat) OR 4 = 4" "(1::nat) OR 2 = 3"
  "(1::nat) OR 4 = 5" "(2::nat) OR 4 = 6" "(3::nat) OR 4 = 7"
  by simp_all

lemma childIndexOf_sum:
  "childIndexOf c p =
     (if c0 p \<ge> c0 c then 1 else 0) + (if c1 p \<ge> c1 c then 2 else 0)
       + (if c2 p \<ge> c2 c then 4 else 0)"
  by (simp add: childIndexOf_def Let_def)

lemma childIndexOf_less: "childIndexOf c p < 8"
  by (simp add: childIndexOf_sum)

lemma childBounds_length: "length (childBounds b) = 8"
  by (simp add: childBounds_def Let_def)

lemma chosen_child_contains:
  assumes "contains b p"
  shows "contains (childBounds b ! childIndexOf (nodeCenter b) p) p"
  using assms
  by (simp add: childIndexOf_sum childBounds_def nodeCenter_def contains_def Let_def)

lemma chosen_child_highest:
  assumes "j < 8" "contains (childBounds b ! j) p"
  shows "j \<le> childIndexOf (nodeCenter b) p"
  using nat_less_8_cases [OF assms(1)] assms(2)
  by (elim disjE)
     (simp_all add: childIndexOf_sum childBounds_def nodeCenter_def contains_def Let_def)

lemma assignTriangles_buckets:
  "assignTriangles c cs ts acc = Inr bs \<Longrightarrow> length acc = 8 \<Longrightarrow>
     length bs = 8 \<and>
     (\<forall>j<8. bs ! j = acc ! j @ filter (\<lambda>t. childIndexOf c (cs ! unat t) = j) ts)"
proof (induction ts arbitrary: acc)
  case Nil
  then show ?case by simp
next
  case (Cons t ts)
  let ?ci = "childIndexOf c (cs ! unat t)"
  let ?acc = "acc[?ci := acc ! ?ci @ [t]]"
  have inr: "unat t < length cs"
    using Cons.prems(1) by (simp split: if_splits)
  then have step: "assignTriangles c cs ts ?acc = Inr bs"
    using Cons.prems(1) by (simp add: Let_def)
  have len: "length ?acc = 8" using Cons.prems(2) by simp
  have IH: "length bs = 8 \<and>
     (\<forall>j<8. bs ! j = ?acc ! j @ filter (\<lambda>t. childIndexOf c (cs ! unat t) = j) ts)"
    using step len by (rule Cons.IH)
  have ci: "?ci < length acc" using Cons.prems(2) childIndexOf_less [of c] by simp
  have "bs ! j = acc ! j @ filter (\<lambda>t. childIndexOf c (cs ! unat t) = j) (t # ts)"
    if "j < 8" for j
  proof (cases "j = ?ci")
    case True
    then show ?thesis using IH that ci by simp
  next
    case False
    then show ?thesis using IH that ci by (simp add: nth_list_update)
  qed
  then show ?case using IH by simp
qed

lemma assignTriangles_total:
  "\<forall>t\<in>set ts. unat t < length cs \<Longrightarrow> \<exists>bs. assignTriangles c cs ts acc = Inr bs"
  by (induction ts arbitrary: acc) (simp_all add: Let_def)

text \<open>
  C7 (as stated) fails: the centroid \<open>(1, 1, 1)\<close> lies on all three subdivision planes of
  the box \<open>(0,0,0)-(2,2,2)\<close>. The lowest-index child whose closed sub-bounds contain it
  is child 0, but the triangle is put into the bucket of child 7.
\<close>

theorem centroid_tie_break_counterexample:
  "lowest_containing_child (BoundingBox (Vertex 0 0 0) (Vertex 2 2 2)) (Vertex 1 1 1) = Some 0 \<and>
   childIndexOf (nodeCenter (BoundingBox (Vertex 0 0 0) (Vertex 2 2 2))) (Vertex 1 1 1) = 7 \<and>
   assignTriangles (nodeCenter (BoundingBox (Vertex 0 0 0) (Vertex 2 2 2))) [Vertex 1 1 1] [0]
      (replicate 8 []) = Inr [[], [], [], [], [], [], [], [0]]"
  by (simp add: childIndexOf_sum nodeCenter_def lowest_containing_child_def childBounds_def
        contains_def upt_conv_Cons Let_def eval_nat_numeral)

text \<open>
  C7 (amended). During centroid-based octree partitioning every triangle of a node is put
  into exactly one child bucket: the one whose index has bit 0, 1, 2 set iff the
  centroid's x, y, z is greater than or equal to the node center's. When the centroid
  lies in the node's closed bounds, the closed sub-bounds of the chosen child contain it,
  and every child whose closed sub-bounds contain the centroid has an index less than or
  equal to the chosen one: a centroid exactly on a subdivision plane is routed to the
  high side, that is to the highest-index child that contains it.
\<close>

theorem centroid_routing_high_side:
  "childIndexOf (nodeCenter b) p < 8 \<and>
   childIndexOf (nodeCenter b) p =
     (if c0 p \<ge> c0 (nodeCenter b) then 1 else 0) + (if c1 p \<ge> c1 (nodeCenter b) then 2 else 0)
       + (if c2 p \<ge> c2 (nodeCenter b) then 4 else 0) \<and>
   (contains b p \<longrightarrow> contains (childBounds b ! childIndexOf (nodeCenter b) p) p) \<and>
   (\<forall>j<8. contains (childBounds b ! j) p \<longrightarrow> j \<le> childIndexOf (nodeCenter b) p) \<and>
   ((\<forall>t\<in>set ts. unat t < length cs) \<longrightarrow>
      (\<exists>bs. assignTriangles (nodeCenter b) cs ts (replicate 8 []) = Inr bs \<and> length bs = 8 \<and>
         (\<forall>j<8. bs ! j = filter (\<lambda>t. childIndexOf (nodeCenter b) (cs ! unat t) = j) ts)))"
proof (intro conjI impI allI)
  show "childIndexOf (nodeCenter b) p < 8" by (rule childIndexOf_less)
  show "childIndexOf (nodeCenter b) p =
     (if c0 p \<ge> c0 (nodeCenter b) then 1 else 0) + (if c1 p \<ge> c1 (nodeCenter b) then 2 else 0)
       + (if c2 p \<ge> c2 (nodeCenter b) then 4 else 0)"
    by (rule childIndexOf_sum)
  show "contains (childBounds b ! childIndexOf (nodeCenter b) p) p" if "contains b p"
    using that by (rule chosen_child_contains)
  show "j \<le> childIndexOf (nodeCenter b) p"
    if "j < 8" "contains (childBounds b ! j) p" for j
    using that by (rule chosen_child_highest)
  show "\<exists>bs. assignTriangles (nodeCenter b) cs ts (replicate 8 []) = Inr bs \<and> length bs = 8 \<and>
         (\<forall>j<8. bs ! j = filter (\<lambda>t. childIndexOf (nodeCenter b) (cs ! unat t) = j) ts)"
    if inr: "\<forall>t\<in>set ts. unat t < length cs"
  proof -
    obtain bs where bs: "assignTriangles (nodeCenter b) cs ts (replicate 8 []) = Inr bs"
      using assignTriangles_total [OF inr] by blast
    have "length bs = 8 \<and>
       (\<forall>j<8. bs ! j = replicate 8 [] ! j @
           filter (\<lambda>t. childIndexOf (nodeCenter b) (cs ! unat t) = j) ts)"
      using bs by (rule assignTriangles_buckets) simp
    then show ?thesis using bs by simp
  qed
qed

theorem centroid_routing_high_side_witness:
  "contains (BoundingBox (Vertex 0 0 0) (Vertex 2 2 2)) (Vertex 1 1 1) \<and>
   contains (childBounds (BoundingBox (Vertex 0 0 0) (Vertex 2 2 2)) ! 7) (Vertex 1 1 1) \<and>
   contains (childBounds (BoundingBox (Vertex 0 0 0) (Vertex 2 2 2)) ! 3) (Vertex 1 1 1) \<and>
   (3::nat) \<le> childIndexOf (nodeCenter (BoundingBox (Vertex 0 0 0) (Vertex 2 2 2))) (Vertex 1 1 1) \<and>
   childIndexOf (nodeCenter (BoundingBox (Vertex 0 0 0) (Vertex 2 2 2))) (Vertex 1 1 1) = 7 \<and>
   unat (0 :: 32 word) < length [Vertex 1 1 1] \<and>
   assignTriangles (nodeCenter (BoundingBox (Vertex 0 0 0) (Vertex 2 2 2))) [Vertex 1 1 1] [0]
      (replicate 8 []) = Inr [[], [], [], [], [], [], [], [0]]"
proof -
  let ?b = "BoundingBox (Vertex 0 0 0) (Vertex 2 2 2)"
  let ?p = "Vertex 1 1 1"
  note T = centroid_routing_high_side [of ?b ?p "[0]" "[?p]"]
  have v: "childIndexOf (nodeCenter ?b) ?p = 7"
    using T [THEN conjunct2, THEN conjunct1] by (simp add: nodeCenter_def)
  have cb: "contains ?b ?p" by (simp add: contains_def)
  have c7: "contains (childBounds ?b ! 7) ?p"
    using T [THEN conjunct2, THEN conjunct2, THEN conjunct1, THEN mp, OF cb] v by simp
  have c3: "contains (childBounds ?b ! 3) ?p"
    by (simp add: childBounds_def nodeCenter_def contains_def Let_def)
  have le: "(3::nat) \<le> childIndexOf (nodeCenter ?b) ?p"
    using T [THEN conjunct2, THEN conjunct2, THEN conjunct2, THEN conjunct1, THEN spec, of 3] c3
    by simp
  have r: "unat (0 :: 32 word) < length [?p]" by simp
  have a: "assignTriangles (nodeCenter ?b) [?p] [0] (replicate 8 []) =
      Inr [[], [], [], [], [], [], [], [0]]"
    by (simp add: childIndexOf_sum nodeCenter_def Let_def eval_nat_numeral)
  show ?thesis by (intro conjI cb c7 c3 le v r a)
qed

section \<open>LOD strategies and nodes (LodAlgorithm.hpp)\<close>

text \<open>
  \<open>ILodStrategy\<close>: an interface with four virtual methods; the two overloads of
  \<open>shouldSubdivide\<close> are told apart by a suffix.
\<close>

record Strategy =
  targetTriangleCount :: "Mesh \<Rightarrow> int \<Rightarrow> nat"
  computeGeometricError :: "Mesh \<Rightarrow> Mesh \<Rightarrow> real"
  shouldSubdivideGeo :: "Mesh \<Rightarrow> GeoBBox \<Rightarrow> int \<Rightarrow> bool"
  shouldSubdivideBox :: "Mesh \<Rightarrow> BoundingBox \<Rightarrow> int \<Rightarrow> bool"

text \<open>
  \<open>TriangleCountStrategy\<close> (LodAlgorithm.cpp, lines 11-34). The conversion of the
  \<open>double\<close> product to \<open>size_t\<close> truncates; the product is not negative for a
  non-negative ratio.
\<close>

definition TriangleCountStrategy :: "nat \<Rightarrow> real \<Rightarrow> Strategy" where
  "TriangleCountStrategy maxTrianglesPerTile reductionRatio =
     \<lparr>targetTriangleCount = (\<lambda>mesh lodLevel.
         let currentCount = triangleCount mesh;
             targetCount = nat \<lfloor>real currentCount * (reductionRatio powi lodLevel)\<rfloor>
         in max targetCount 100),
      computeGeometricError = (\<lambda>original simplified.
         if triangleCount original = 0 then 0.0
         else (let reductionRatio =
                     1.0 - real (triangleCount simplified) / real (triangleCount original)
               in reductionRatio * 100.0)),
      shouldSubdivideGeo = (\<lambda>mesh region currentLevel.
         triangleCount mesh > maxTrianglesPerTile \<and> currentLevel < 8),
      shouldSubdivideBox = (\<lambda>mesh bounds currentLevel.
         triangleCount mesh > maxTrianglesPerTile \<and> currentLevel < 8)\<rparr>"

text \<open>
  \<open>OctreeConfig\<close> (Geometry.hpp) and \<open>LodConfig\<close> (LodAlgorithm.hpp). The field
  \<open>minNodeSize\<close> of \<open>LodConfig\<close> is \<open>lodMinNodeSize\<close> here.
\<close>

record OctreeConfig =
  maxTrianglesPerNode :: nat
  maxDepth :: int
  minNodeSize :: real
  enableAdaptiveSubdivision :: bool

record LodConfig =
  strategy :: Strategy
  maxLodLevels :: int
  minTrianglesForSubdivision :: nat
  minTileSizeDegrees :: real
  lodMinNodeSize :: real
  octreeConfig :: OctreeConfig
  enableParallelProcessing :: bool
  useOctreeSubdivision :: bool

text \<open>
  \<open>GeoLodNode\<close> and \<open>GeometricLodNode\<close> have the same fields but for the type of the
  bounds (\<open>region\<close>, \<open>bounds\<close>); one datatype with the bounds as a parameter stands for
  both.
\<close>

datatype 'b LodNodeOf =
  LodNodeOf (nodeBounds: 'b) (children: "'b LodNodeOf list") (nodeMesh: Mesh) (lodLevel: int)
    (geometricError: real)

type_synonym GeoLodNode = "GeoBBox LodNodeOf"
type_synonym GeometricLodNode = "BoundingBox LodNodeOf"

section \<open>Geographic LOD construction (LodAlgorithm.cpp, lines 156-209 and 286-300)\<close>

definition splitMeshByRegion :: "Mesh \<Rightarrow> GeoBBox \<Rightarrow> GeoBBox list \<Rightarrow> (Mesh \<times> GeoBBox) list" where
  "splitMeshByRegion mesh totalRegion subRegions = map (\<lambda>region. (mesh, region)) subRegions"

text \<open>
  The body of the loop over the sub-regions, up to the recursive call: the child node
  that is appended for a sub-region, if any.
\<close>

definition geoChildFor ::
  "simplify_kernel \<Rightarrow> LodConfig \<Rightarrow> GeoLodNode \<Rightarrow> int \<Rightarrow> GeoBBox \<Rightarrow> GeoLodNode option" where
  "geoChildFor meshopt_simplify config node depth subRegion =
     (let subMeshes = splitMeshByRegion (nodeMesh node) (nodeBounds node) [subRegion] in
      if subMeshes \<noteq> [] \<and> \<not> mesh_empty (fst (hd subMeshes)) then
        (let targetCount = targetTriangleCount (strategy config) (fst (hd subMeshes)) (depth + 1);
             childMesh = simplifyMesh meshopt_simplify (fst (hd subMeshes)) targetCount;
             childError = computeGeometricError (strategy config) (fst (hd subMeshes)) childMesh
         in Some (LodNodeOf subRegion [] childMesh (depth + 1) childError))
      else None)"

function buildRecursiveGeo ::
  "simplify_kernel \<Rightarrow> LodConfig \<Rightarrow> GeoLodNode \<Rightarrow> int \<Rightarrow> GeoLodNode" where
  "buildRecursiveGeo meshopt_simplify config node depth =
     (if depth \<ge> maxLodLevels config then node
      else if \<not> shouldSubdivideGeo (strategy config) (nodeMesh node) (nodeBounds node) depth then node
      else
        (let subRegions = geo_subdivide (nodeBounds node);
             newChildren =
               concat (map (\<lambda>subRegion.
                  case geoChildFor meshopt_simplify config node depth subRegion of
                    None \<Rightarrow> []
                  | Some childNode \<Rightarrow>
                      [buildRecursiveGeo meshopt_simplify config childNode (depth + 1)])
                subRegions)
         in LodNodeOf (nodeBounds node) (children node @ newChildren) (nodeMesh node)
              (lodLevel node) (geometricError node)))"
  by pat_completeness auto
termination
  by (relation "measure (\<lambda>(k, config, node, depth). nat (maxLodLevels config - depth))") auto

declare buildRecursiveGeo.simps [simp del]

definition buildGeoLodHierarchy ::
  "simplify_kernel \<Rightarrow> Mesh \<Rightarrow> GeoBBox \<Rightarrow> LodConfig \<Rightarrow> GeoLodNode option" where
  "buildGeoLodHierarchy meshopt_simplify inputMesh region config =
     (if mesh_empty inputMesh then None
      else Some (buildRecursiveGeo meshopt_simplify config
                   (LodNodeOf region [] inputMesh 0 0.0) 0))"

definition defaultOctreeConfig :: OctreeConfig where
  "defaultOctreeConfig =
     \<lparr>maxTrianglesPerNode = 1000, maxDepth = 8, minNodeSize = 0.001,
      enableAdaptiveSubdivision = True\<rparr>"

text \<open>A \<open>LodConfig\<close> with the defaults of the struct for all but the given fields.\<close>

definition lodConfig :: "Strategy \<Rightarrow> int \<Rightarrow> bool \<Rightarrow> LodConfig" where
  "lodConfig s levels useOctree =
     \<lparr>strategy = s, maxLodLevels = levels, minTrianglesForSubdivision = 100,
      minTileSizeDegrees = 0.001, lodMinNodeSize = 0.001, octreeConfig = defaultOctreeConfig,
      enableParallelProcessing = True, useOctreeSubdivision = useOctree\<rparr>"

text \<open>Two triangles in opposite corners of the region \<open>(100, 30, 120, 50)\<close>.\<close>

definition geoMesh2 :: Mesh where
  "geoMesh2 = \<lparr>vertices = \<lparr>positions =
        [Vertex 101 31 0, Vertex 102 31 0, Vertex 101 32 0,
         Vertex 118 48 0, Vertex 119 48 0, Vertex 118 49 0],
        normals = [], texCoords = [], colors = []\<rparr>,
      indices = [0, 1, 2, 3, 4, 5]\<rparr>"

text \<open>101 degenerate triangles over a single vertex.\<close>

definition mesh101 :: Mesh where
  "mesh101 = \<lparr>vertices = \<lparr>positions = [Vertex 105 35 0],
        normals = [], texCoords = [], colors = []\<rparr>,
      indices = replicate 303 0\<rparr>"

section \<open>Overlap-based octree partitioning (Geometry.cpp, lines 32-145)\<close>

text \<open>
  A box extended to include a point: the body of the minimum and maximum loops.
\<close>

definition extendBox :: "BoundingBox \<Rightarrow> Vertex \<Rightarrow> BoundingBox" where
  "extendBox b v =
     BoundingBox
       (Vertex (min (c0 (bmin b)) (c0 v)) (min (c1 (bmin b)) (c1 v)) (min (c2 (bmin b)) (c2 v)))
       (Vertex (max (c0 (bmax b)) (c0 v)) (max (c1 (bmax b)) (c1 v)) (max (c2 (bmax b)) (c2 v)))"

text \<open>
  Modelled from the spec: \<open>computeBoundingBox(const Mesh&)\<close> for the mesh with parallel
  attribute arrays is declared in Geometry.hpp, but its body is not among the sources.
  The specification says that the root bounds are computed from the vertex positions;
  the model takes the componentwise minimum and maximum over all positions and the
  zero box for a mesh without vertices, as \<open>computeGeometryBoundingBox\<close> and
  \<open>Mesh::boundingBox\<close> do for the other mesh representation.
\<close>

definition computeBoundingBox :: "Mesh \<Rightarrow> BoundingBox" where
  "computeBoundingBox mesh =
     (case positions (vertices mesh) of
        [] \<Rightarrow> BoundingBox (Vertex 0 0 0) (Vertex 0 0 0)
      | p # ps \<Rightarrow> foldl extendBox (BoundingBox p p) (p # ps))"

text \<open>\<open>computeTriangleBounds\<close> and \<open>triangleIntersectsBounds\<close>.\<close>

definition computeTriangleBounds :: "Vertex \<times> Vertex \<times> Vertex \<Rightarrow> BoundingBox" where
  "computeTriangleBounds triangle =
     (case triangle of (v0, v1, v2) \<Rightarrow> foldl extendBox (BoundingBox v0 v0) [v0, v1, v2])"

definition triangleIntersectsBounds :: "Vertex \<times> Vertex \<times> Vertex \<Rightarrow> BoundingBox \<Rightarrow> bool" where
  "triangleIntersectsBounds triangle bounds =
     (let triBounds = computeTriangleBounds triangle in
      if \<not> intersects bounds triBounds then False
      else (case triangle of (v0, v1, v2) \<Rightarrow>
              if contains bounds v0 \<or> contains bounds v1 \<or> contains bounds v2 then True
              else True))"

text \<open>
  The three positions of a triangle as \<open>buildOctree\<close> reads them: the guard and the index
  reads are those of \<open>readTriangle\<close> (\<open>triIdx\<close> is a \<open>uint32_t\<close>), followed by three reads
  of the position array.
\<close>

definition trianglePositions :: "Mesh \<Rightarrow> Index \<Rightarrow> fault + (Vertex \<times> Vertex \<times> Vertex) option" where
  "trianglePositions mesh triIdx =
     (case readTriangle (indices mesh) triIdx of
        Inl e \<Rightarrow> Inl e
      | Inr None \<Rightarrow> Inr None
      | Inr (Some (i0, i1, i2)) \<Rightarrow>
          (let ps = positions (vertices mesh) in
           if unat i0 < length ps \<and> unat i1 < length ps \<and> unat i2 < length ps
           then Inr (Some (ps ! unat i0, ps ! unat i1, ps ! unat i2))
           else Inl OutOfBoundsRead))"

text \<open>The inner loop: the triangles of the node that go to one child.\<close>

fun selectTriangles :: "Mesh \<Rightarrow> BoundingBox \<Rightarrow> Index list \<Rightarrow> fault + Index list" where
  "selectTriangles mesh childBound [] = Inr []"
| "selectTriangles mesh childBound (triIdx # rest) =
     (case trianglePositions mesh triIdx of
        Inl e \<Rightarrow> Inl e
      | Inr None \<Rightarrow> selectTriangles mesh childBound rest
      | Inr (Some triangle) \<Rightarrow>
          (case selectTriangles mesh childBound rest of
             Inl e \<Rightarrow> Inl e
           | Inr childTriangles \<Rightarrow>
               Inr (if triangleIntersectsBounds triangle childBound
                    then triIdx # childTriangles else childTriangles)))"

text \<open>
  \<open>OctreeNode\<close>: the array of eight \<open>unique_ptr\<close> children is a list of eight optional
  nodes.
\<close>

datatype OctreeNode =
  OctreeNode (bounds: BoundingBox) (triangleIndices: "Index list")
    (octChildren: "OctreeNode option list") (depth: int)

definition isLeaf :: "OctreeNode \<Rightarrow> bool" where
  "isLeaf node \<longleftrightarrow> list_all (\<lambda>child. child = None) (octChildren node)"

text \<open>The first fault of a list of results, or all the values.\<close>

fun sequence_results :: "(fault + 'a) list \<Rightarrow> fault + 'a list" where
  "sequence_results [] = Inr []"
| "sequence_results (Inl e # rs) = Inl e"
| "sequence_results (Inr x # rs) =
     (case sequence_results rs of Inl e \<Rightarrow> Inl e | Inr xs \<Rightarrow> Inr (x # xs))"

text \<open>
  The recursive lambda \<open>subdivideNode\<close>; the result is the node after the call. The
  lambda is only applied to nodes whose eight child slots are all empty (\<open>buildOctree\<close>
  and the lambda itself create nodes that way), so the slot array of the result is the one
  that the loop over \<open>childIdx\<close> fills.
\<close>

function subdivideNode :: "OctreeConfig \<Rightarrow> Mesh \<Rightarrow> OctreeNode \<Rightarrow> fault + OctreeNode" where
  "subdivideNode config mesh node =
     (if length (triangleIndices node) \<le> maxTrianglesPerNode config \<or>
         depth node \<ge> maxDepth config \<or>
         volume (bounds node) < minNodeSize config * minNodeSize config * minNodeSize config
      then Inr node
      else
        (case sequence_results
                (map (\<lambda>childBound.
                   case selectTriangles mesh childBound (triangleIndices node) of
                     Inl e \<Rightarrow> Inl e
                   | Inr childTriangles \<Rightarrow>
                       if childTriangles \<noteq> [] then
                         map_sum id Some
                           (subdivideNode config mesh
                              (OctreeNode childBound childTriangles (replicate 8 None)
                                 (depth node + 1)))
                       else Inr None)
                 (subdivide (bounds node))) of
           Inl e \<Rightarrow> Inl e
         | Inr newChildren \<Rightarrow>
             (let hasChildren = list_ex (\<lambda>child. child \<noteq> None) newChildren in
              Inr (OctreeNode (bounds node)
                     (if hasChildren then [] else triangleIndices node)
                     newChildren (depth node)))))"
  by pat_completeness auto
termination
  by (relation "measure (\<lambda>(config, mesh, node). nat (maxDepth config - depth node))") auto

declare subdivideNode.simps [simp del]

definition buildOctree :: "Mesh \<Rightarrow> OctreeConfig \<Rightarrow> fault + OctreeNode option" where
  "buildOctree mesh config =
     (if mesh_empty mesh then Inr None
      else
        (let rootBounds = computeBoundingBox mesh in
         if bb_empty rootBounds then Inr None
         else
           (let root = OctreeNode rootBounds
                         (map of_nat [0 ..< triangleCount mesh]) (replicate 8 None) 0
            in map_sum id Some (subdivideNode config mesh root))))"

text \<open>\<open>OctreeNode::collectLeaves\<close>.\<close>

primrec collectLeaves :: "OctreeNode \<Rightarrow> OctreeNode list" where
  "collectLeaves (OctreeNode b ts cs d) =
     (if list_all (\<lambda>child. child = None) cs then [OctreeNode b ts cs d]
      else concat (map (\<lambda>child. case child of None \<Rightarrow> [] | Some leaves \<Rightarrow> leaves)
                    (map (map_option collectLeaves) cs)))"

text \<open>The sum of the triangle-index-list lengths over the leaves.\<close>

definition leafTriangleTotal :: "OctreeNode \<Rightarrow> nat" where
  "leafTriangleTotal tree =
     sum_list (map (\<lambda>leaf. length (triangleIndices leaf)) (collectLeaves tree))"

text \<open>One triangle that spans the whole of its bounding box \<open>(0,0,0)-(2,2,2)\<close>.\<close>

definition spanMesh :: Mesh where
  "spanMesh = \<lparr>vertices = \<lparr>positions = [Vertex 0 0 0, Vertex 2 0 0, Vertex 0 2 2],
        normals = [], texCoords = [], colors = []\<rparr>,
      indices = [0, 1, 2]\<rparr>"


section \<open>Every triangle reaches a leaf of the overlap-based octree\<close>






























lemmas octree_eval_simps =
  buildOctree_def subdivideNode.simps selectTriangles.simps trianglePositions_def
  readTriangle_def triangleIntersectsBounds_def computeTriangleBounds_def computeBoundingBox_def
  extendBox_def intersects_def contains_def subdivide_def center_def volume_def bb_size_def
  bb_empty_def mesh_empty_def triangleCount_def Let_def leafTriangleTotal_def upt_conv_Cons
  list_all_iff




section \<open>Geometric LOD construction\<close>

subsection \<open>\<open>splitMeshByBounds\<close> (Geometry.cpp, lines 208-240)\<close>

text \<open>
  The loop variable \<open>i\<close> is a \<open>size_t\<close> here, so the guard \<open>i * 3 + 2 < indices.size()\<close>
  does not wrap; the triangle id is narrowed to \<open>Index\<close> when it is stored.
\<close>

definition trianglePositionsAt :: "Mesh \<Rightarrow> nat \<Rightarrow> fault + (Vertex \<times> Vertex \<times> Vertex) option" where
  "trianglePositionsAt mesh i =
     (let idx = indices mesh; ps = positions (vertices mesh) in
      if i * 3 + 2 < length idx then
        (if unat (idx ! (i * 3)) < length ps \<and> unat (idx ! (i * 3 + 1)) < length ps \<and>
            unat (idx ! (i * 3 + 2)) < length ps
         then Inr (Some (ps ! unat (idx ! (i * 3)), ps ! unat (idx ! (i * 3 + 1)),
                         ps ! unat (idx ! (i * 3 + 2))))
         else Inl OutOfBoundsRead)
      else Inr None)"

fun intersectingTriangles :: "Mesh \<Rightarrow> BoundingBox \<Rightarrow> nat list \<Rightarrow> fault + Index list" where
  "intersectingTriangles mesh bound [] = Inr []"
| "intersectingTriangles mesh bound (i # rest) =
     (case trianglePositionsAt mesh i of
        Inl e \<Rightarrow> Inl e
      | Inr None \<Rightarrow> intersectingTriangles mesh bound rest
      | Inr (Some triangle) \<Rightarrow>
          (case intersectingTriangles mesh bound rest of
             Inl e \<Rightarrow> Inl e
           | Inr selected \<Rightarrow>
               Inr (if triangleIntersectsBounds triangle bound
                    then of_nat i # selected else selected)))"

fun splitMeshByBounds :: "Mesh \<Rightarrow> BoundingBox list \<Rightarrow> fault + (Mesh \<times> BoundingBox) list" where
  "splitMeshByBounds mesh [] = Inr []"
| "splitMeshByBounds mesh (bound # rest) =
     (case intersectingTriangles mesh bound [0 ..< triangleCount mesh] of
        Inl e \<Rightarrow> Inl e
      | Inr selected \<Rightarrow>
          (case (if selected \<noteq> []
                 then map_sum id (\<lambda>subMesh. [(subMesh, bound)]) (subset mesh selected)
                 else Inr []) of
             Inl e \<Rightarrow> Inl e
           | Inr here \<Rightarrow>
               (case splitMeshByBounds mesh rest of
                  Inl e \<Rightarrow> Inl e
                | Inr results \<Rightarrow> Inr (here @ results))))"

subsection \<open>Recursive subdivision (LodAlgorithm.cpp, lines 211-265)\<close>

text \<open>The body of the loop over the sub-bounds, up to the recursive call.\<close>

definition boxChildFor ::
  "simplify_kernel \<Rightarrow> LodConfig \<Rightarrow> GeometricLodNode \<Rightarrow> int \<Rightarrow> BoundingBox
     \<Rightarrow> fault + GeometricLodNode option" where
  "boxChildFor meshopt_simplify config node curDepth subBound =
     (case splitMeshByBounds (nodeMesh node) [subBound] of
        Inl e \<Rightarrow> Inl e
      | Inr subMeshes \<Rightarrow>
          if subMeshes \<noteq> [] \<and> \<not> mesh_empty (fst (hd subMeshes)) then
            (let targetCount =
                   targetTriangleCount (strategy config) (fst (hd subMeshes)) (curDepth + 1);
                 childMesh = simplifyMesh meshopt_simplify (fst (hd subMeshes)) targetCount;
                 childError =
                   computeGeometricError (strategy config) (fst (hd subMeshes)) childMesh
             in Inr (Some (LodNodeOf subBound [] childMesh (curDepth + 1) childError)))
          else Inr None)"

function buildRecursiveBox ::
  "simplify_kernel \<Rightarrow> LodConfig \<Rightarrow> GeometricLodNode \<Rightarrow> int \<Rightarrow> fault + GeometricLodNode" where
  "buildRecursiveBox meshopt_simplify config node curDepth =
     (if curDepth \<ge> maxLodLevels config then Inr node
      else if \<not> shouldSubdivideBox (strategy config) (nodeMesh node) (nodeBounds node) curDepth
      then Inr node
      else
        (case sequence_results
                (map (\<lambda>subBound.
                   case boxChildFor meshopt_simplify config node curDepth subBound of
                     Inl e \<Rightarrow> Inl e
                   | Inr None \<Rightarrow> Inr []
                   | Inr (Some childNode) \<Rightarrow>
                       map_sum id (\<lambda>child. [child])
                         (buildRecursiveBox meshopt_simplify config childNode (curDepth + 1)))
                 (subdivide (nodeBounds node))) of
           Inl e \<Rightarrow> Inl e
         | Inr newChildren \<Rightarrow>
             Inr (LodNodeOf (nodeBounds node) (children node @ concat newChildren)
                    (nodeMesh node) (lodLevel node) (geometricError node))))"
  by pat_completeness auto
termination
  by (relation "measure (\<lambda>(k, config, node, curDepth). nat (maxLodLevels config - curDepth))") auto

declare buildRecursiveBox.simps [simp del]

subsection \<open>Octree-guided construction (Geometry.cpp, lines 147-206)\<close>

text \<open>
  The traversal that gathers the triangle ids of all leaves below a node, in the order
  of \<open>OctreeNode::traverse\<close>.
\<close>

primrec allLeafTriangles :: "OctreeNode \<Rightarrow> Index list" where
  "allLeafTriangles (OctreeNode b ts cs d) =
     (if list_all (\<lambda>child. child = None) cs then ts else []) @
     concat (map (\<lambda>child. case child of None \<Rightarrow> [] | Some below \<Rightarrow> below)
               (map (map_option allLeafTriangles) cs))"

text \<open>
  The recursive lambda \<open>buildLodFromOctree\<close>. A node keeps the default-constructed mesh
  when there is nothing to take a subset of, and the default geometric error \<open>0.0\<close>.
\<close>

primrec buildLodFromOctree :: "Mesh \<Rightarrow> OctreeNode \<Rightarrow> int \<Rightarrow> fault + GeometricLodNode" where
  "buildLodFromOctree mesh (OctreeNode b ts cs d) level =
     (if list_all (\<lambda>child. child = None) cs then
        (case (if ts \<noteq> [] then subset mesh ts else Inr emptyMesh) of
           Inl e \<Rightarrow> Inl e
         | Inr m \<Rightarrow> Inr (LodNodeOf b [] m level 0.0))
      else
        (let allTriangles = allLeafTriangles (OctreeNode b ts cs d) in
         case (if allTriangles \<noteq> [] then subset mesh allTriangles else Inr emptyMesh) of
           Inl e \<Rightarrow> Inl e
         | Inr m \<Rightarrow>
             (case sequence_results
                     (map (\<lambda>child. case child of
                              None \<Rightarrow> Inr []
                            | Some build \<Rightarrow>
                                map_sum id
                                  (\<lambda>childLodNode.
                                     if \<not> mesh_empty (nodeMesh childLodNode)
                                     then [childLodNode] else [])
                                  (build (level + 1)))
                        (map (map_option (buildLodFromOctree mesh)) cs)) of
                Inl e \<Rightarrow> Inl e
              | Inr childLodNodes \<Rightarrow> Inr (LodNodeOf b (concat childLodNodes) m level 0.0))))"

definition buildGeometricLod :: "Mesh \<Rightarrow> OctreeConfig \<Rightarrow> fault + GeometricLodNode option" where
  "buildGeometricLod mesh octreeCfg =
     (if mesh_empty mesh then Inr None
      else
        (case buildOctree mesh octreeCfg of
           Inl e \<Rightarrow> Inl e
         | Inr None \<Rightarrow> Inr None
         | Inr (Some octree) \<Rightarrow> map_sum id Some (buildLodFromOctree mesh octree 0)))"

definition buildOctreeLodHierarchy :: "Mesh \<Rightarrow> LodConfig \<Rightarrow> fault + GeometricLodNode option" where
  "buildOctreeLodHierarchy inputMesh config = buildGeometricLod inputMesh (octreeConfig config)"

definition buildGeometricLodHierarchy ::
  "simplify_kernel \<Rightarrow> Mesh \<Rightarrow> BoundingBox \<Rightarrow> LodConfig \<Rightarrow> fault + GeometricLodNode option" where
  "buildGeometricLodHierarchy meshopt_simplify inputMesh bnds config =
     (if useOctreeSubdivision config then buildOctreeLodHierarchy inputMesh config
      else
        map_sum id Some
          (buildRecursiveBox meshopt_simplify config (LodNodeOf bnds [] inputMesh 0 0.0) 0))"

section \<open>Geometric errors in the LOD trees\<close>

fun all_nodes :: "('b LodNodeOf \<Rightarrow> bool) \<Rightarrow> 'b LodNodeOf \<Rightarrow> bool" where
  "all_nodes P (LodNodeOf b cs m l e) =
     (P (LodNodeOf b cs m l e) \<and> (\<forall>c\<in>set cs. all_nodes P c))"

text \<open>
  What the geographic builder records in the children of a node: the child's mesh is the
  simplified mesh of the node (the whole of it, see \<open>splitMeshByRegion\<close>), and the child's
  error is the value of the strategy on these two meshes.
\<close>

definition geo_child_rule :: "simplify_kernel \<Rightarrow> LodConfig \<Rightarrow> GeoLodNode \<Rightarrow> bool" where
  "geo_child_rule k config n \<longleftrightarrow>
     (\<forall>c\<in>set (children n).
        nodeMesh c = simplifyMesh k (nodeMesh n)
                       (targetTriangleCount (strategy config) (nodeMesh n) (lodLevel c)) \<and>
        geometricError c = computeGeometricError (strategy config) (nodeMesh n) (nodeMesh c))"

text \<open>
  The same for recursive geometric subdivision, where the sub-mesh is the result of
  \<open>splitMeshByBounds\<close> for the child's bounds.
\<close>

definition box_child_rule :: "simplify_kernel \<Rightarrow> LodConfig \<Rightarrow> GeometricLodNode \<Rightarrow> bool" where
  "box_child_rule k config n \<longleftrightarrow>
     (\<forall>c\<in>set (children n).
        \<exists>subMesh. splitMeshByBounds (nodeMesh n) [nodeBounds c] = Inr [(subMesh, nodeBounds c)] \<and>
          nodeMesh c = simplifyMesh k subMesh
                         (targetTriangleCount (strategy config) subMesh (lodLevel c)) \<and>
          geometricError c = computeGeometricError (strategy config) subMesh (nodeMesh c))"

lemma all_nodes_iff:
  "all_nodes P n \<longleftrightarrow> P n \<and> (\<forall>c\<in>set (children n). all_nodes P c)"
  by (cases n) simp

lemma buildRecursiveGeo_fields:
  "\<exists>cs. buildRecursiveGeo k config node d =
     LodNodeOf (nodeBounds node) (children node @ cs) (nodeMesh node) (lodLevel node)
       (geometricError node)"
proof (cases "d \<ge> maxLodLevels config \<or>
    \<not> shouldSubdivideGeo (strategy config) (nodeMesh node) (nodeBounds node) d")
  case True
  then have "buildRecursiveGeo k config node d = node"
    by (subst buildRecursiveGeo.simps) auto
  then have "buildRecursiveGeo k config node d =
     LodNodeOf (nodeBounds node) (children node @ []) (nodeMesh node) (lodLevel node)
       (geometricError node)" by simp
  then show ?thesis by blast
next
  case False
  then show ?thesis
    by (subst buildRecursiveGeo.simps) (simp add: Let_def)
qed

lemma geoChildFor_Some:
  assumes "geoChildFor k config node d subRegion = Some c"
  shows "c = LodNodeOf subRegion []
               (simplifyMesh k (nodeMesh node)
                  (targetTriangleCount (strategy config) (nodeMesh node) (d + 1)))
               (d + 1)
               (computeGeometricError (strategy config) (nodeMesh node)
                  (simplifyMesh k (nodeMesh node)
                     (targetTriangleCount (strategy config) (nodeMesh node) (d + 1))))"
  using assms by (auto simp: geoChildFor_def splitMeshByRegion_def Let_def split: if_splits)

lemma buildRecursiveGeo_rule:
  "children node = [] \<Longrightarrow> all_nodes (geo_child_rule k config) (buildRecursiveGeo k config node d)"
proof (induction k config node d rule: buildRecursiveGeo.induct)
  case (1 k config node d)
  show ?case
  proof (cases "d \<ge> maxLodLevels config \<or>
      \<not> shouldSubdivideGeo (strategy config) (nodeMesh node) (nodeBounds node) d")
    case True
    then have "buildRecursiveGeo k config node d = node"
      by (subst buildRecursiveGeo.simps) auto
    then show ?thesis
      using "1.prems" by (simp add: all_nodes_iff [of _ node] geo_child_rule_def)
  next
    case False
    let ?new = "concat (map (\<lambda>subRegion.
                  case geoChildFor k config node d subRegion of
                    None \<Rightarrow> []
                  | Some childNode \<Rightarrow> [buildRecursiveGeo k config childNode (d + 1)])
                (geo_subdivide (nodeBounds node)))"
    let ?res = "LodNodeOf (nodeBounds node) ?new (nodeMesh node) (lodLevel node)
                  (geometricError node)"
    have res: "buildRecursiveGeo k config node d = ?res"
      using False "1.prems" by (subst buildRecursiveGeo.simps) (simp add: Let_def)
    have each: "all_nodes (geo_child_rule k config) c \<and>
         nodeMesh c = simplifyMesh k (nodeMesh node)
                       (targetTriangleCount (strategy config) (nodeMesh node) (lodLevel c)) \<and>
         geometricError c = computeGeometricError (strategy config) (nodeMesh node) (nodeMesh c)"
      if cin: "c \<in> set ?new" for c
    proof -
      obtain sr childNode where sr: "sr \<in> set (geo_subdivide (nodeBounds node))"
        and ch: "geoChildFor k config node d sr = Some childNode"
        and c: "c = buildRecursiveGeo k config childNode (d + 1)"
        using cin by (auto split: option.splits) (metis)
      note shape = geoChildFor_Some [OF ch]
      have ce: "children childNode = []"
        using arg_cong [OF shape, of children] by simp
      have IH: "all_nodes (geo_child_rule k config) c"
        unfolding c using False sr ch ce by (intro "1.IH") auto
      obtain cs where f: "c = LodNodeOf (nodeBounds childNode) (children childNode @ cs)
          (nodeMesh childNode) (lodLevel childNode) (geometricError childNode)"
        using buildRecursiveGeo_fields [of k config childNode "d + 1"] c by auto
      have m: "nodeMesh c = nodeMesh childNode" "lodLevel c = lodLevel childNode"
        "geometricError c = geometricError childNode"
        using arg_cong [OF f, of nodeMesh] arg_cong [OF f, of lodLevel]
          arg_cong [OF f, of geometricError] by simp_all
      have m2: "lodLevel childNode = d + 1"
        using arg_cong [OF shape, of lodLevel] by simp
      have m3: "nodeMesh childNode = simplifyMesh k (nodeMesh node)
                  (targetTriangleCount (strategy config) (nodeMesh node) (d + 1))"
        using arg_cong [OF shape, of nodeMesh] by simp
      have m4: "geometricError childNode = computeGeometricError (strategy config) (nodeMesh node)
                  (nodeMesh childNode)"
        using arg_cong [OF shape, of geometricError] m3 by simp
      show ?thesis using IH m m2 m3 m4 by simp
    qed
    have "geo_child_rule k config ?res"
      using each by (simp add: geo_child_rule_def)
    then have "all_nodes (geo_child_rule k config) ?res"
      using each by simp
    then show ?thesis using res by simp
  qed
qed

lemma map_sum_id_Inr:
  "map_sum id f r = Inr x \<Longrightarrow> \<exists>y. r = Inr y \<and> x = f y"
  by (cases r) auto

lemma sequence_results_Inr:
  "sequence_results rs = Inr xs \<Longrightarrow> list_all2 (\<lambda>r x. r = Inr x) rs xs"
proof (induction rs arbitrary: xs)
  case Nil
  then show ?case by simp
next
  case (Cons r rs)
  then show ?case
    by (cases r) (auto split: sum.splits)
qed

lemma sequence_results_concat_mem:
  assumes "sequence_results (map f ys) = Inr xs" "c \<in> set (concat xs)"
  shows "\<exists>y\<in>set ys. \<exists>x. f y = Inr x \<and> c \<in> set x"
proof -
  have l: "list_all2 (\<lambda>r x. r = Inr x) (map f ys) xs"
    using assms(1) by (rule sequence_results_Inr)
  obtain x where x: "x \<in> set xs" "c \<in> set x" using assms(2) by auto
  then obtain i where i: "i < length xs" "xs ! i = x" by (auto simp: in_set_conv_nth)
  have len: "length ys = length xs" using l by (simp add: list_all2_lengthD [symmetric])
  have "f (ys ! i) = Inr x"
    using l i len by (simp add: list_all2_conv_all_nth)
  moreover have "ys ! i \<in> set ys" using i len by simp
  ultimately show ?thesis using x(2) by blast
qed

lemma splitMeshByBounds_single:
  assumes "splitMeshByBounds mesh [b] = Inr r" "r \<noteq> []"
  shows "\<exists>subMesh. r = [(subMesh, b)]"
proof -
  obtain sel where sel: "intersectingTriangles mesh b [0 ..< triangleCount mesh] = Inr sel"
    using assms(1) by (auto split: sum.splits)
  show ?thesis
  proof (cases "sel = []")
    case True
    then show ?thesis using assms sel by simp
  next
    case False
    then show ?thesis
      using assms sel by (cases "subset mesh sel") auto
  qed
qed

lemma boxChildFor_Some:
  assumes "boxChildFor k config node d sb = Inr (Some c)"
  shows "\<exists>subMesh. splitMeshByBounds (nodeMesh node) [sb] = Inr [(subMesh, sb)] \<and>
     c = LodNodeOf sb []
           (simplifyMesh k subMesh (targetTriangleCount (strategy config) subMesh (d + 1)))
           (d + 1)
           (computeGeometricError (strategy config) subMesh
              (simplifyMesh k subMesh (targetTriangleCount (strategy config) subMesh (d + 1))))"
proof -
  obtain r where r: "splitMeshByBounds (nodeMesh node) [sb] = Inr r"
    using assms by (auto simp: boxChildFor_def split: sum.splits)
  have ne: "r \<noteq> []" using assms r by (auto simp: boxChildFor_def split: if_splits)
  obtain subMesh where s: "r = [(subMesh, sb)]"
    using splitMeshByBounds_single [OF r ne] by blast
  show ?thesis
    using assms r s by (auto simp: boxChildFor_def Let_def split: if_splits)
qed

lemma buildRecursiveBox_fields:
  assumes "buildRecursiveBox k config node d = Inr node'"
  shows "\<exists>cs. node' =
     LodNodeOf (nodeBounds node) (children node @ cs) (nodeMesh node) (lodLevel node)
       (geometricError node)"
proof (cases "d \<ge> maxLodLevels config \<or>
    \<not> shouldSubdivideBox (strategy config) (nodeMesh node) (nodeBounds node) d")
  case True
  then have "buildRecursiveBox k config node d = Inr node"
    by (subst buildRecursiveBox.simps) auto
  then have "node' =
     LodNodeOf (nodeBounds node) (children node @ []) (nodeMesh node) (lodLevel node)
       (geometricError node)" using assms by simp
  then show ?thesis by blast
next
  case False
  then show ?thesis
    using assms by (subst (asm) buildRecursiveBox.simps) (auto split: sum.splits)
qed

lemma buildRecursiveBox_rule:
  "children node = [] \<Longrightarrow> buildRecursiveBox k config node d = Inr node'
     \<Longrightarrow> all_nodes (box_child_rule k config) node'"
proof (induction k config node d arbitrary: node' rule: buildRecursiveBox.induct)
  case (1 k config node d)
  show ?case
  proof (cases "d \<ge> maxLodLevels config \<or>
      \<not> shouldSubdivideBox (strategy config) (nodeMesh node) (nodeBounds node) d")
    case True
    then have "buildRecursiveBox k config node d = Inr node"
      by (subst buildRecursiveBox.simps) auto
    then have "node' = node" using "1.prems"(2) by simp
    then show ?thesis
      using "1.prems"(1) by (simp add: all_nodes_iff [of _ node] box_child_rule_def)
  next
    case False
    let ?f = "\<lambda>subBound.
                   case boxChildFor k config node d subBound of
                     Inl e \<Rightarrow> Inl e
                   | Inr None \<Rightarrow> Inr []
                   | Inr (Some childNode) \<Rightarrow>
                       map_sum id (\<lambda>child. [child])
                         (buildRecursiveBox k config childNode (d + 1))"
    obtain new where seq: "sequence_results (map ?f (subdivide (nodeBounds node))) = Inr new"
      and res: "node' = LodNodeOf (nodeBounds node) (concat new) (nodeMesh node) (lodLevel node)
                  (geometricError node)"
      using False "1.prems"
      by (subst (asm) (2) buildRecursiveBox.simps) (auto split: sum.splits)
    have each: "all_nodes (box_child_rule k config) c \<and>
        (\<exists>subMesh. splitMeshByBounds (nodeMesh node) [nodeBounds c] = Inr [(subMesh, nodeBounds c)] \<and>
          nodeMesh c = simplifyMesh k subMesh
                         (targetTriangleCount (strategy config) subMesh (lodLevel c)) \<and>
          geometricError c = computeGeometricError (strategy config) subMesh (nodeMesh c))"
      if cin: "c \<in> set (concat new)" for c
    proof -
      obtain sb x where sb: "sb \<in> set (subdivide (nodeBounds node))"
        and fx: "?f sb = Inr x" and cx: "c \<in> set x"
        using sequence_results_concat_mem [OF seq cin] by blast
      obtain childNode where ch: "boxChildFor k config node d sb = Inr (Some childNode)"
        and rc: "buildRecursiveBox k config childNode (d + 1) = Inr c"
        using fx cx by (auto split: sum.splits option.splits dest!: map_sum_id_Inr)
      obtain subMesh where sm: "splitMeshByBounds (nodeMesh node) [sb] = Inr [(subMesh, sb)]"
        and shape: "childNode = LodNodeOf sb []
           (simplifyMesh k subMesh (targetTriangleCount (strategy config) subMesh (d + 1)))
           (d + 1)
           (computeGeometricError (strategy config) subMesh
              (simplifyMesh k subMesh (targetTriangleCount (strategy config) subMesh (d + 1))))"
        using boxChildFor_Some [OF ch] by blast
      have ce: "children childNode = []" using arg_cong [OF shape, of children] by simp
      have IH: "all_nodes (box_child_rule k config) c"
        using False sb ch ce rc by (intro "1.IH" [of sb "Some childNode" childNode]) auto
      obtain cs where f: "c = LodNodeOf (nodeBounds childNode) (children childNode @ cs)
          (nodeMesh childNode) (lodLevel childNode) (geometricError childNode)"
        using buildRecursiveBox_fields [OF rc] by blast
      have m: "nodeMesh c = nodeMesh childNode" "lodLevel c = lodLevel childNode"
        "geometricError c = geometricError childNode" "nodeBounds c = nodeBounds childNode"
        using arg_cong [OF f, of nodeMesh] arg_cong [OF f, of lodLevel]
          arg_cong [OF f, of geometricError] arg_cong [OF f, of nodeBounds] by simp_all
      have s: "nodeBounds childNode = sb" "lodLevel childNode = d + 1"
        "nodeMesh childNode = simplifyMesh k subMesh
            (targetTriangleCount (strategy config) subMesh (d + 1))"
        using arg_cong [OF shape, of nodeBounds] arg_cong [OF shape, of lodLevel]
          arg_cong [OF shape, of nodeMesh] by simp_all
      have e: "geometricError childNode =
          computeGeometricError (strategy config) subMesh (nodeMesh childNode)"
        using arg_cong [OF shape, of geometricError] s(3) by simp
      show ?thesis using IH m s e sm by auto
    qed
    have "box_child_rule k config node'"
      unfolding res box_child_rule_def using each by simp
    then show ?thesis
      unfolding res using each by simp
  qed
qed


lemma buildLodFromOctree_all_zero:
  "buildLodFromOctree mesh tree level = Inr n \<Longrightarrow> all_nodes (\<lambda>n. geometricError n = 0) n"
proof (induction tree arbitrary: level n)
  case (OctreeNode b ts cs d)
  show ?case
  proof (cases "list_all (\<lambda>child. child = None) cs")
    case True
    then show ?thesis using OctreeNode.prems by (auto split: sum.splits if_splits)
  next
    case False
    let ?f = "\<lambda>child. case child of
                              None \<Rightarrow> Inr []
                            | Some t \<Rightarrow>
                                map_sum id
                                  (\<lambda>childLodNode.
                                     if \<not> mesh_empty (nodeMesh childLodNode)
                                     then [childLodNode] else [])
                                  (buildLodFromOctree mesh t (level + 1))"
    obtain m new where seq: "sequence_results (map ?f cs) = Inr new"
      and res: "n = LodNodeOf b (concat new) m level 0"
      using False OctreeNode.prems
      by (auto simp: Let_def comp_def option.case_distrib option.map_comp split: sum.splits
            cong: option.case_cong)
    have "all_nodes (\<lambda>n. geometricError n = 0) c" if cin: "c \<in> set (concat new)" for c
    proof -
      obtain child x where child: "child \<in> set cs" and fx: "?f child = Inr x" and cx: "c \<in> set x"
        using sequence_results_concat_mem [OF seq cin] by blast
      obtain t where t: "child = Some t" and rc: "buildLodFromOctree mesh t (level + 1) = Inr c"
        using fx cx by (auto split: option.splits sum.splits if_splits dest!: map_sum_id_Inr)
      show ?thesis
        using OctreeNode.IH [of child t "level + 1" c] child t rc by simp
    qed
    then show ?thesis unfolding res by simp
  qed
qed

section \<open>The claims about the LOD builder\<close>

text \<open>The monotonicity invariant at one node, in the words of the specification.\<close>

definition error_monotone :: "'b LodNodeOf \<Rightarrow> bool" where
  "error_monotone n \<longleftrightarrow> (\<forall>c\<in>set (children n). geometricError c \<le> geometricError n)"



lemmas geo_eval_simps =
  buildGeoLodHierarchy_def buildRecursiveGeo.simps geoChildFor_def splitMeshByRegion_def
  geo_subdivide_def centerLon_def centerLat_def lodConfig_def TriangleCountStrategy_def
  simplifyMesh_def triangleCount_def mesh_empty_def Let_def prefix_kernel_def resize_def

lemma buildGeo_mesh101:
  "buildGeoLodHierarchy prefix_kernel mesh101 (GeoBBox 100 30 120 50)
     (lodConfig (TriangleCountStrategy 100 0.5) 1 False) =
   Some (LodNodeOf (GeoBBox 100 30 120 50)
          [LodNodeOf (GeoBBox 100 30 110 40) [] (mesh101\<lparr>indices := replicate 300 0\<rparr>) 1 (100 / 101),
           LodNodeOf (GeoBBox 110 30 120 40) [] (mesh101\<lparr>indices := replicate 300 0\<rparr>) 1 (100 / 101),
           LodNodeOf (GeoBBox 100 40 110 50) [] (mesh101\<lparr>indices := replicate 300 0\<rparr>) 1 (100 / 101),
           LodNodeOf (GeoBBox 110 40 120 50) [] (mesh101\<lparr>indices := replicate 300 0\<rparr>) 1 (100 / 101)]
          mesh101 0 0)"
  by (simp add: geo_eval_simps mesh101_def)

lemma buildGeo_geoMesh2:
  "buildGeoLodHierarchy prefix_kernel geoMesh2 (GeoBBox 100 30 120 50)
     (lodConfig (TriangleCountStrategy 1 0.5) 1 False) =
   Some (LodNodeOf (GeoBBox 100 30 120 50)
          [LodNodeOf (GeoBBox 100 30 110 40) [] geoMesh2 1 0,
           LodNodeOf (GeoBBox 110 30 120 40) [] geoMesh2 1 0,
           LodNodeOf (GeoBBox 100 40 110 50) [] geoMesh2 1 0,
           LodNodeOf (GeoBBox 110 40 120 50) [] geoMesh2 1 0]
          geoMesh2 0 0)"
  by (simp add: geo_eval_simps geoMesh2_def)


lemma buildOctreeLod_spanMesh:
  "buildGeometricLodHierarchy prefix_kernel spanMesh (BoundingBox (Vertex 0 0 0) (Vertex 2 2 2))
     (lodConfig (TriangleCountStrategy 10 0.5) 3 True) =
   Inr (Some (LodNodeOf (BoundingBox (Vertex 0 0 0) (Vertex 2 2 2)) [] spanMesh 0 0))"
  by (simp add: buildGeometricLodHierarchy_def buildOctreeLodHierarchy_def buildGeometricLod_def
        lodConfig_def defaultOctreeConfig_def octree_eval_simps mesh_eval_simps spanMesh_def)

lemma buildGeo_root_error:
  assumes "buildGeoLodHierarchy k m r config = Some node"
  shows "geometricError node = 0 \<and> nodeBounds node = r \<and> nodeMesh node = m \<and>
         all_nodes (geo_child_rule k config) node"
proof -
  let ?root = "LodNodeOf r [] m 0 0.0"
  have n: "node = buildRecursiveGeo k config ?root 0"
    using assms by (simp add: buildGeoLodHierarchy_def split: if_splits)
  obtain cs where f: "node = LodNodeOf (nodeBounds ?root) (children ?root @ cs) (nodeMesh ?root)
      (lodLevel ?root) (geometricError ?root)"
    using buildRecursiveGeo_fields [of k config ?root 0] n by auto
  have "all_nodes (geo_child_rule k config) node"
    unfolding n by (rule buildRecursiveGeo_rule) simp
  then show ?thesis using arg_cong [OF f, of geometricError] arg_cong [OF f, of nodeBounds]
      arg_cong [OF f, of nodeMesh] by simp
qed


lemma buildBox_recursive_root:
  assumes "\<not> useOctreeSubdivision config"
    "buildGeometricLodHierarchy k m b config = Inr (Some node)"
  shows "geometricError node = 0 \<and> nodeBounds node = b \<and> nodeMesh node = m \<and>
         all_nodes (box_child_rule k config) node"
proof -
  let ?root = "LodNodeOf b [] m 0 0.0"
  have n: "buildRecursiveBox k config ?root 0 = Inr node"
    using assms by (auto simp: buildGeometricLodHierarchy_def dest!: map_sum_id_Inr)
  obtain cs where f: "node = LodNodeOf (nodeBounds ?root) (children ?root @ cs) (nodeMesh ?root)
      (lodLevel ?root) (geometricError ?root)"
    using buildRecursiveBox_fields [OF n] by blast
  have "all_nodes (box_child_rule k config) node"
    using n by (intro buildRecursiveBox_rule [of ?root]) simp_all
  then show ?thesis using arg_cong [OF f, of geometricError] arg_cong [OF f, of nodeBounds]
      arg_cong [OF f, of nodeMesh] by simp
qed

lemma buildBox_octree_root:
  assumes "useOctreeSubdivision config"
    "buildGeometricLodHierarchy k m b config = Inr (Some node)"
  shows "all_nodes (\<lambda>n. geometricError n = 0) node"
proof -
  obtain octree where "buildLodFromOctree m octree 0 = Inr node"
    using assms
    by (auto simp: buildGeometricLodHierarchy_def buildOctreeLodHierarchy_def
          buildGeometricLod_def split: if_splits sum.splits option.splits dest!: map_sum_id_Inr)
  then show ?thesis by (rule buildLodFromOctree_all_zero)
qed


text \<open>
  C2 (as stated) fails: with the triangle-count strategy (at most 100 triangles per tile,
  ratio 0.5) and a kernel that reaches the target of 100 triangles, the four children of
  the root of a 101-triangle mesh get the error \<open>(1 - 100/101) \<cdot> 100 = 100/101\<close>, while the
  root has the error 0. The child error exceeds the parent's and is not clamped to
  \<open>0.9 \<cdot> 0\<close>.
\<close>

theorem child_error_exceeds_parent_counterexample:
  "buildGeoLodHierarchy prefix_kernel mesh101 (GeoBBox 100 30 120 50)
     (lodConfig (TriangleCountStrategy 100 0.5) 1 False) =
   Some (LodNodeOf (GeoBBox 100 30 120 50)
          [LodNodeOf (GeoBBox 100 30 110 40) [] (mesh101\<lparr>indices := replicate 300 0\<rparr>) 1 (100 / 101),
           LodNodeOf (GeoBBox 110 30 120 40) [] (mesh101\<lparr>indices := replicate 300 0\<rparr>) 1 (100 / 101),
           LodNodeOf (GeoBBox 100 40 110 50) [] (mesh101\<lparr>indices := replicate 300 0\<rparr>) 1 (100 / 101),
           LodNodeOf (GeoBBox 110 40 120 50) [] (mesh101\<lparr>indices := replicate 300 0\<rparr>) 1 (100 / 101)]
          mesh101 0 0) \<and>
   \<not> error_monotone
       (LodNodeOf (GeoBBox 100 30 120 50)
          [LodNodeOf (GeoBBox 100 30 110 40) [] (mesh101\<lparr>indices := replicate 300 0\<rparr>) 1 (100 / 101),
           LodNodeOf (GeoBBox 110 30 120 40) [] (mesh101\<lparr>indices := replicate 300 0\<rparr>) 1 (100 / 101),
           LodNodeOf (GeoBBox 100 40 110 50) [] (mesh101\<lparr>indices := replicate 300 0\<rparr>) 1 (100 / 101),
           LodNodeOf (GeoBBox 110 40 120 50) [] (mesh101\<lparr>indices := replicate 300 0\<rparr>) 1 (100 / 101)]
          mesh101 0 0) \<and>
   (100 / 101 :: real) \<noteq> 0 * 0.9"
  using buildGeo_mesh101 by (simp add: error_monotone_def)

text \<open>
  C2 (amended). In a LOD tree produced by the LOD builder the root's geometric error is
  0.0. Every child built by recursive subdivision, geographic or geometric, carries
  exactly the error that the strategy computes from the child's sub-mesh and its
  simplified mesh; nothing is clamped against the parent's error. In octree-guided mode
  every node carries the error 0.0.
\<close>

theorem lod_child_errors_unclamped:
  "(buildGeoLodHierarchy k m r config = Some node \<longrightarrow>
      geometricError node = 0 \<and> all_nodes (geo_child_rule k config) node) \<and>
   (\<not> useOctreeSubdivision config \<and>
    buildGeometricLodHierarchy k m b config = Inr (Some node') \<longrightarrow>
      geometricError node' = 0 \<and> all_nodes (box_child_rule k config) node') \<and>
   (useOctreeSubdivision config \<and>
    buildGeometricLodHierarchy k m b config = Inr (Some node') \<longrightarrow>
      all_nodes (\<lambda>n. geometricError n = 0) node')"
  using buildGeo_root_error [of k m r config node]
    buildBox_recursive_root [of config k m b node'] buildBox_octree_root [of config k m b node']
  by blast

lemmas box_eval_simps =
  buildGeometricLodHierarchy_def buildRecursiveBox.simps boxChildFor_def
  splitMeshByBounds.simps intersectingTriangles.simps trianglePositionsAt_def
  triangleIntersectsBounds_def computeTriangleBounds_def extendBox_def intersects_def
  contains_def subdivide_def center_def lodConfig_def TriangleCountStrategy_def
  simplifyMesh_def triangleCount_def mesh_empty_def Let_def upt_conv_Cons

definition eightChildren :: "GeometricLodNode list" where
  "eightChildren =
     [LodNodeOf (BoundingBox (Vertex 0 0 0) (Vertex 1 1 1)) [] spanMesh 1 0,
      LodNodeOf (BoundingBox (Vertex 1 0 0) (Vertex 2 1 1)) [] spanMesh 1 0,
      LodNodeOf (BoundingBox (Vertex 0 1 0) (Vertex 1 2 1)) [] spanMesh 1 0,
      LodNodeOf (BoundingBox (Vertex 1 1 0) (Vertex 2 2 1)) [] spanMesh 1 0,
      LodNodeOf (BoundingBox (Vertex 0 0 1) (Vertex 1 1 2)) [] spanMesh 1 0,
      LodNodeOf (BoundingBox (Vertex 1 0 1) (Vertex 2 1 2)) [] spanMesh 1 0,
      LodNodeOf (BoundingBox (Vertex 0 1 1) (Vertex 1 2 2)) [] spanMesh 1 0,
      LodNodeOf (BoundingBox (Vertex 1 1 1) (Vertex 2 2 2)) [] spanMesh 1 0]"

lemma buildBox_spanMesh:
  "buildGeometricLodHierarchy prefix_kernel spanMesh (BoundingBox (Vertex 0 0 0) (Vertex 2 2 2))
     (lodConfig (TriangleCountStrategy 0 0.5) 1 False) =
   Inr (Some (LodNodeOf (BoundingBox (Vertex 0 0 0) (Vertex 2 2 2)) eightChildren spanMesh 0 0))"
  by (simp add: box_eval_simps mesh_eval_simps spanMesh_def eightChildren_def)

definition fourChildren101 :: "GeoLodNode list" where
  "fourChildren101 =
     [LodNodeOf (GeoBBox 100 30 110 40) [] (mesh101\<lparr>indices := replicate 300 0\<rparr>) 1 (100 / 101),
      LodNodeOf (GeoBBox 110 30 120 40) [] (mesh101\<lparr>indices := replicate 300 0\<rparr>) 1 (100 / 101),
      LodNodeOf (GeoBBox 100 40 110 50) [] (mesh101\<lparr>indices := replicate 300 0\<rparr>) 1 (100 / 101),
      LodNodeOf (GeoBBox 110 40 120 50) [] (mesh101\<lparr>indices := replicate 300 0\<rparr>) 1 (100 / 101)]"

theorem lod_child_errors_unclamped_witness:
  "buildGeoLodHierarchy prefix_kernel mesh101 (GeoBBox 100 30 120 50)
     (lodConfig (TriangleCountStrategy 100 0.5) 1 False) =
     Some (LodNodeOf (GeoBBox 100 30 120 50) fourChildren101 mesh101 0 0) \<and>
   geometricError (LodNodeOf (GeoBBox 100 30 120 50) fourChildren101 mesh101 0 0) = 0 \<and>
   all_nodes (geo_child_rule prefix_kernel (lodConfig (TriangleCountStrategy 100 0.5) 1 False))
     (LodNodeOf (GeoBBox 100 30 120 50) fourChildren101 mesh101 0 0) \<and>
   \<not> useOctreeSubdivision (lodConfig (TriangleCountStrategy 0 0.5) 1 False) \<and>
   buildGeometricLodHierarchy prefix_kernel spanMesh (BoundingBox (Vertex 0 0 0) (Vertex 2 2 2))
     (lodConfig (TriangleCountStrategy 0 0.5) 1 False) =
     Inr (Some (LodNodeOf (BoundingBox (Vertex 0 0 0) (Vertex 2 2 2)) eightChildren spanMesh 0 0)) \<and>
   geometricError (LodNodeOf (BoundingBox (Vertex 0 0 0) (Vertex 2 2 2)) eightChildren spanMesh 0 0)
     = 0 \<and>
   all_nodes (box_child_rule prefix_kernel (lodConfig (TriangleCountStrategy 0 0.5) 1 False))
     (LodNodeOf (BoundingBox (Vertex 0 0 0) (Vertex 2 2 2)) eightChildren spanMesh 0 0) \<and>
   useOctreeSubdivision (lodConfig (TriangleCountStrategy 10 0.5) 3 True) \<and>
   buildGeometricLodHierarchy prefix_kernel spanMesh (BoundingBox (Vertex 0 0 0) (Vertex 2 2 2))
     (lodConfig (TriangleCountStrategy 10 0.5) 3 True) =
     Inr (Some (LodNodeOf (BoundingBox (Vertex 0 0 0) (Vertex 2 2 2)) [] spanMesh 0 0)) \<and>
   all_nodes (\<lambda>n. geometricError n = 0)
     (LodNodeOf (BoundingBox (Vertex 0 0 0) (Vertex 2 2 2)) [] spanMesh 0 0)"
proof -
  let ?cA = "lodConfig (TriangleCountStrategy 100 0.5) 1 False"
  let ?cB = "lodConfig (TriangleCountStrategy 0 0.5) 1 False"
  let ?cC = "lodConfig (TriangleCountStrategy 10 0.5) 3 True"
  let ?r = "GeoBBox 100 30 120 50"
  let ?b = "BoundingBox (Vertex 0 0 0) (Vertex 2 2 2)"
  let ?TA = "LodNodeOf ?r fourChildren101 mesh101 0 0"
  let ?TB = "LodNodeOf ?b eightChildren spanMesh 0 0"
  let ?TC = "LodNodeOf ?b [] spanMesh 0 0"
  have a: "buildGeoLodHierarchy prefix_kernel mesh101 ?r ?cA = Some ?TA"
    using buildGeo_mesh101 by (simp add: fourChildren101_def)
  have nb: "\<not> useOctreeSubdivision ?cB" by (simp add: lodConfig_def)
  have b: "buildGeometricLodHierarchy prefix_kernel spanMesh ?b ?cB = Inr (Some ?TB)"
    by (rule buildBox_spanMesh)
  have uc: "useOctreeSubdivision ?cC" by (simp add: lodConfig_def)
  have c: "buildGeometricLodHierarchy prefix_kernel spanMesh ?b ?cC = Inr (Some ?TC)"
    by (rule buildOctreeLod_spanMesh)
  note T1 = lod_child_errors_unclamped [of prefix_kernel mesh101 ?r ?cA ?TA ?b ?TB]
  note T2 = lod_child_errors_unclamped [of prefix_kernel spanMesh ?r ?cB ?TA ?b ?TB]
  note T3 = lod_child_errors_unclamped [of prefix_kernel spanMesh ?r ?cC ?TA ?b ?TC]
  note A = T1 [THEN conjunct1, THEN mp, OF a]
  note B = T2 [THEN conjunct2, THEN conjunct1, THEN mp, OF conjI [OF nb b]]
  note C = T3 [THEN conjunct2, THEN conjunct2, THEN mp, OF conjI [OF uc c]]
  show ?thesis
    by (intro conjI a A [THEN conjunct1] A [THEN conjunct2] nb b B [THEN conjunct1]
          B [THEN conjunct2] uc c C)
qed

section \<open>When the geometric builder returns a root\<close>










subsection \<open>Octree-guided mode\<close>










subsection \<open>Recursive mode\<close>









subsection \<open>The root returned by the geometric builder\<close>








text \<open>
  C4 (the code at the failing input). The two triangles of \<open>geoMesh2\<close> lie in the
  south-west and in the north-east quarter of the region \<open>(100, 30, 120, 50)\<close>.
  \<open>splitMeshByRegion\<close> hands the whole mesh to every sub-region, so all four children are
  built, none is skipped, and each carries both triangles: the sub-meshes of the four
  children are all equal to the parent mesh.
\<close>

theorem geo_split_returns_whole_mesh:
  "splitMeshByRegion geoMesh2 (GeoBBox 100 30 120 50) [GeoBBox 110 30 120 40] =
     [(geoMesh2, GeoBBox 110 30 120 40)] \<and>
   buildGeoLodHierarchy prefix_kernel geoMesh2 (GeoBBox 100 30 120 50)
     (lodConfig (TriangleCountStrategy 1 0.5) 1 False) =
   Some (LodNodeOf (GeoBBox 100 30 120 50)
          [LodNodeOf (GeoBBox 100 30 110 40) [] geoMesh2 1 0,
           LodNodeOf (GeoBBox 110 30 120 40) [] geoMesh2 1 0,
           LodNodeOf (GeoBBox 100 40 110 50) [] geoMesh2 1 0,
           LodNodeOf (GeoBBox 110 40 120 50) [] geoMesh2 1 0]
          geoMesh2 0 0)"
  using buildGeo_geoMesh2 by (simp add: splitMeshByRegion_def)

section \<open>3D-Tiles export (TilesExporter.cpp, lines 134-225)\<close>

datatype TilesError = WriteError | InvalidPath | JsonError | GlbError | CompressionError

text \<open>
  The files that the exporter creates below the output directory: \<open>tileset.json\<close> and
  \<open>tiles/level_<level>_<address>.b3dm\<close>, where the address is that of the node object.
\<close>

datatype exported_file = TilesetJson | TileContent int nat

text \<open>
  The environment decides what the file system and the allocator do: whether the
  directories can be created (\<open>create_directories\<close> throws otherwise), whether a file
  can be opened for writing, whether the stream is still good after the write, whether
  serialising the manifest throws a JSON exception, and whether building the GLB or
  B3DM buffer of a mesh throws. \<open>address\<close> gives the address of a node object.
\<close>

record 'b export_env =
  dirs_ok :: bool
  can_open :: "exported_file \<Rightarrow> bool"
  write_good :: "exported_file \<Rightarrow> bool"
  json_throws :: bool
  glb_throws :: "Mesh \<Rightarrow> bool"
  b3dm_throws :: "Mesh \<Rightarrow> bool"
  address :: "'b LodNodeOf \<Rightarrow> nat"

text \<open>
  The outcome of \<open>exportTileset\<close>: the \<open>std::expected\<close> value, or an exception that
  leaves the function.
\<close>

datatype export_outcome = Done | Failed TilesError | Threw

text \<open>
  \<open>generateTilesetJson\<close>: opening the stream creates the file. The state is the list of
  files created so far, oldest first.
\<close>

definition generateTilesetJson ::
  "'b export_env \<Rightarrow> exported_file list \<Rightarrow> TilesError option \<times> exported_file list" where
  "generateTilesetJson env created =
     (if \<not> can_open env TilesetJson then (Some WriteError, created)
      else if json_throws env then (Some JsonError, created @ [TilesetJson])
      else (None, created @ [TilesetJson]))"

text \<open>\<open>exportTileContent\<close> for the node's mesh and the file of the node.\<close>

definition exportTileContent ::
  "'b export_env \<Rightarrow> Mesh \<Rightarrow> exported_file \<Rightarrow> exported_file list
     \<Rightarrow> TilesError option \<times> exported_file list" where
  "exportTileContent env m outputFile created =
     (if glb_throws env m then (Some GlbError, created)
      else if b3dm_throws env m then (Some WriteError, created)
      else if \<not> can_open env outputFile then (Some WriteError, created)
      else if \<not> write_good env outputFile then (Some WriteError, created @ [outputFile])
      else (None, created @ [outputFile]))"

text \<open>
  The recursive lambda \<open>exportRecursive\<close>, and its loop over the children, which stops at
  the first child that fails.
\<close>

function exportRecursive ::
    "'b export_env \<Rightarrow> 'b LodNodeOf \<Rightarrow> exported_file list
       \<Rightarrow> TilesError option \<times> exported_file list"
  and exportChildren ::
    "'b export_env \<Rightarrow> 'b LodNodeOf list \<Rightarrow> exported_file list
       \<Rightarrow> TilesError option \<times> exported_file list" where
  "exportRecursive env (LodNodeOf b cs m l e) created =
     (case (if \<not> mesh_empty m
            then exportTileContent env m (TileContent l (address env (LodNodeOf b cs m l e)))
                   created
            else (None, created)) of
        (Some err, created') \<Rightarrow> (Some err, created')
      | (None, created') \<Rightarrow> exportChildren env cs created')"
| "exportChildren env [] created = (None, created)"
| "exportChildren env (c # rest) created =
     (case exportRecursive env c created of
        (Some err, created') \<Rightarrow> (Some err, created')
      | (None, created') \<Rightarrow> exportChildren env rest created')"
  by pat_completeness auto
termination
  by (relation "measure (\<lambda>x. case x of Inl (env, n, tr) \<Rightarrow> size n
                                       | Inr (env, cs, tr) \<Rightarrow> size_list size cs)") auto

definition exportTileset ::
  "'b export_env \<Rightarrow> 'b LodNodeOf \<Rightarrow> export_outcome \<times> exported_file list" where
  "exportTileset env root_node =
     (if \<not> dirs_ok env then (Threw, [])
      else
        (case generateTilesetJson env [] of
           (Some err, created) \<Rightarrow> (Failed err, created)
         | (None, created) \<Rightarrow>
             (case exportRecursive env root_node created of
                (Some err, created') \<Rightarrow> (Failed err, created')
              | (None, created') \<Rightarrow> (Done, created'))))"

text \<open>Environments in which everything works, or in which no tile file can be opened.\<close>

definition env_ok :: "'b export_env" where
  "env_ok = \<lparr>dirs_ok = True, can_open = (\<lambda>f. True), write_good = (\<lambda>f. True),
             json_throws = False, glb_throws = (\<lambda>m. False), b3dm_throws = (\<lambda>m. False),
             address = (\<lambda>n. 4096)\<rparr>"

definition env_tiles_fail :: "'b export_env" where
  "env_tiles_fail = \<lparr>dirs_ok = True, can_open = (\<lambda>f. f = TilesetJson),
             write_good = (\<lambda>f. True), json_throws = False, glb_throws = (\<lambda>m. False),
             b3dm_throws = (\<lambda>m. False), address = (\<lambda>n. 4096)\<rparr>"

lemma exportTileContent_appends:
  assumes "exportTileContent env m (TileContent l a) created = (r, created')"
  shows "\<exists>xs. created' = created @ xs \<and> TilesetJson \<notin> set xs"
  using assms by (auto simp: exportTileContent_def split: if_splits)

lemma export_appends_tiles:
  "exportRecursive env n created = (r, created')
     \<Longrightarrow> \<exists>xs. created' = created @ xs \<and> TilesetJson \<notin> set xs"
  "exportChildren env ns created = (r, created')
     \<Longrightarrow> \<exists>xs. created' = created @ xs \<and> TilesetJson \<notin> set xs"
proof (induction env n created and env ns created arbitrary: r created' and r created'
    rule: exportRecursive_exportChildren.induct)
  case (1 env b cs m l e created)
  let ?n = "LodNodeOf b cs m l e"
  obtain r0 c0 where own: "(if \<not> mesh_empty m
            then exportTileContent env m (TileContent l (address env ?n)) created
            else (None, created)) = (r0, c0)"
    by (cases "(if \<not> mesh_empty m
            then exportTileContent env m (TileContent l (address env ?n)) created
            else (None, created))") auto
  have a: "\<exists>xs. c0 = created @ xs \<and> TilesetJson \<notin> set xs"
  proof (cases "mesh_empty m")
    case True
    then show ?thesis using own by simp
  next
    case False
    then show ?thesis using own exportTileContent_appends by simp
  qed
  show ?case
  proof (cases r0)
    case None
    then have "exportChildren env cs c0 = (r, created')"
      using "1.prems" own by simp
    then have "\<exists>xs. created' = c0 @ xs \<and> TilesetJson \<notin> set xs"
      using "1.IH" [OF own [symmetric]] None by simp
    then show ?thesis using a by auto
  next
    case (Some err)
    then have "created' = c0" using "1.prems" own by simp
    then show ?thesis using a by simp
  qed
next
  case (2 env created)
  then show ?case by simp
next
  case (3 env c rest created)
  obtain r0 c0 where own: "exportRecursive env c created = (r0, c0)"
    by (cases "exportRecursive env c created") auto
  have a: "\<exists>xs. c0 = created @ xs \<and> TilesetJson \<notin> set xs"
    using "3.IH"(1) [OF own] .
  show ?case
  proof (cases r0)
    case None
    then have "exportChildren env rest c0 = (r, created')"
      using "3.prems" own by simp
    then have "\<exists>xs. created' = c0 @ xs \<and> TilesetJson \<notin> set xs"
      using "3.IH"(2) [OF own [symmetric]] None by simp
    then show ?thesis using a by auto
  next
    case (Some err)
    then have "created' = c0" using "3.prems" own by simp
    then show ?thesis using a by simp
  qed
qed

lemma exportTileset_shape:
  "\<exists>tiles. TilesetJson \<notin> set tiles \<and>
     (snd (exportTileset env n) = [] \<or> snd (exportTileset env n) = TilesetJson # tiles) \<and>
     (fst (exportTileset env n) = Done \<longrightarrow> snd (exportTileset env n) = TilesetJson # tiles)"
proof (cases "dirs_ok env \<and> can_open env TilesetJson \<and> \<not> json_throws env")
  case False
  then have "snd (exportTileset env n) = [] \<or> snd (exportTileset env n) = TilesetJson # []"
    and "fst (exportTileset env n) \<noteq> Done"
    by (auto simp: exportTileset_def generateTilesetJson_def)
  then show ?thesis by (intro exI [of _ "[]"]) auto
next
  case True
  obtain r c where rc: "exportRecursive env n [TilesetJson] = (r, c)"
    by (cases "exportRecursive env n [TilesetJson]") auto
  obtain xs where xs: "c = [TilesetJson] @ xs" "TilesetJson \<notin> set xs"
    using export_appends_tiles(1) [OF rc] by blast
  have "snd (exportTileset env n) = TilesetJson # xs"
    using True rc xs by (auto simp: exportTileset_def generateTilesetJson_def split: option.splits)
  then show ?thesis using xs(2) by (intro exI [of _ xs]) auto
qed

text \<open>
  C9 (as stated) fails: \<open>exportTileset\<close> writes \<open>tileset.json\<close> before it exports any
  tile. In a successful export it is the first file created, not the last; when no tile
  file can be opened, the export fails with \<open>WriteError\<close> and \<open>tileset.json\<close> is the only
  file that exists.
\<close>

theorem tileset_json_written_first_counterexample:
  "exportTileset env_ok (LodNodeOf (GeoBBox 100 30 120 50) [] mesh1 0 0) =
     (Done, [TilesetJson, TileContent 0 4096]) \<and>
   exportTileset env_tiles_fail (LodNodeOf (GeoBBox 100 30 120 50) [] mesh1 0 0) =
     (Failed WriteError, [TilesetJson])"
  by (simp add: exportTileset_def generateTilesetJson_def exportTileContent_def env_ok_def
        env_tiles_fail_def mesh_empty_def mesh1_def)

text \<open>
  C9 (amended). During 3D-Tiles export \<open>tileset.json\<close> is written first: whenever the
  export has created any file, \<open>tileset.json\<close> is the first of them and all later files
  are tile content files, which are written only after it. A successful export has
  created \<open>tileset.json\<close>; its presence does not mark success.
\<close>

theorem tileset_json_written_first:
  "\<exists>tiles. TilesetJson \<notin> set tiles \<and>
     (snd (exportTileset env n) = [] \<or> snd (exportTileset env n) = TilesetJson # tiles) \<and>
     (fst (exportTileset env n) = Done \<longrightarrow> snd (exportTileset env n) = TilesetJson # tiles)"
  by (rule exportTileset_shape)

theorem tileset_json_written_first_witness:
  "fst (exportTileset env_ok (LodNodeOf (GeoBBox 100 30 120 50) [] mesh1 0 0)) = Done \<and>
   (\<exists>tiles. TilesetJson \<notin> set tiles \<and>
      snd (exportTileset env_ok (LodNodeOf (GeoBBox 100 30 120 50) [] mesh1 0 0))
        = TilesetJson # tiles)"
proof -
  let ?n = "LodNodeOf (GeoBBox 100 30 120 50) [] mesh1 0 0"
  have d: "fst (exportTileset env_ok ?n) = Done"
    by (simp add: exportTileset_def generateTilesetJson_def exportTileContent_def env_ok_def
          mesh_empty_def mesh1_def)
  show ?thesis
    using d tileset_json_written_first [of env_ok ?n] by blast
qed

end
